theory Spec2Isabelle
  imports Complex_Main
begin

section \<open>Values of the runtime\<close>

text \<open>
  The ingestion pipeline of \<^verbatim>\<open>apps/functions/api/events/water.ts\<close> and the archive
  client of \<^verbatim>\<open>apps/functions/utils/gitea.ts\<close>, as functions over an explicit database
  state. Strings are lists of code units below 256 (header values and the archive's
  bytes are such strings). A number is what \<^verbatim>\<open>JSON.parse\<close> can yield: a finite value, kept
  as a rational, or an infinity (an exponent out of range); it never yields NaN.
\<close>

datatype number = Fin rat | PosInfinity | NegInfinity

datatype json =
    JNull
  | JBool bool
  | JNum number
  | JStr string
  | JArr "json list"
  | JObj "(string \<times> json) list"

text \<open>\<^verbatim>\<open>v.key\<close> on a value that is not null: a member of an object, undefined (None) otherwise.\<close>

fun property :: "json \<Rightarrow> string \<Rightarrow> json option" where
  "property (JObj fs) k = map_of fs k"
| "property _ k = None"

text \<open>\<^verbatim>\<open>typeof v === 'number'\<close>, and the comparisons of a number with a finite bound.\<close>

fun is_number :: "json \<Rightarrow> bool" where
  "is_number (JNum _) = True"
| "is_number _ = False"

fun num_less :: "number \<Rightarrow> rat \<Rightarrow> bool" where
  "num_less (Fin q) b = (q < b)"
| "num_less PosInfinity b = False"
| "num_less NegInfinity b = True"

fun num_greater :: "number \<Rightarrow> rat \<Rightarrow> bool" where
  "num_greater (Fin q) b = (q > b)"
| "num_greater PosInfinity b = True"
| "num_greater NegInfinity b = False"

text \<open>Truthiness of a possibly undefined value, and \<^verbatim>\<open>v || null\<close>.\<close>

fun truthy :: "json option \<Rightarrow> bool" where
  "truthy None = False"
| "truthy (Some JNull) = False"
| "truthy (Some (JBool b)) = b"
| "truthy (Some (JNum (Fin q))) = (q \<noteq> 0)"
| "truthy (Some (JNum _)) = True"
| "truthy (Some (JStr s)) = (s \<noteq> [])"
| "truthy (Some _) = True"

definition or_null :: "json option \<Rightarrow> json" where
  "or_null v = (if truthy v then the v else JNull)"

text \<open>A header read with \<^verbatim>\<open>headers.get\<close> and tested with \<^verbatim>\<open>if (h)\<close>: present and not empty.\<close>

fun present :: "string option \<Rightarrow> bool" where
  "present None = False"
| "present (Some s) = (s \<noteq> [])"

subsection \<open>Numbers as text\<close>

definition digit_char :: "nat \<Rightarrow> char" where
  "digit_char d = ''0123456789abcdef'' ! d"

fun digits :: "nat \<Rightarrow> nat \<Rightarrow> string" where
  "digits b n = (if b < 2 \<or> n < b then [digit_char n] else digits b (n div b) @ [digit_char (n mod b)])"

declare digits.simps [simp del]

text \<open>
  An integer in a template literal: its decimal digits, with a sign. (The exponent
  notation starts at \<open>10\<^sup>2\<^sup>1\<close>, beyond every time value.)
\<close>

definition int_to_string :: "int \<Rightarrow> string" where
  "int_to_string i = (if i < 0 then CHR ''-'' # digits 10 (nat (- i)) else digits 10 (nat i))"

text \<open>
  The platform's functions the code calls and this development does not define: they are
  parameters of every function that uses them.
\<close>

record platform =
  fraction_to_string :: "rat \<Rightarrow> string"
    \<comment> \<open>Number::toString of a finite number that is not an integer\<close>
  url_origin :: "string \<Rightarrow> string"
    \<comment> \<open>\<^verbatim>\<open>new URL(s).origin\<close>, of the request's own URL\<close>
  url_hostname :: "string \<Rightarrow> string option"
    \<comment> \<open>\<^verbatim>\<open>new URL(s).hostname\<close>; None when the constructor throws\<close>
  date_getFullYear :: "int \<Rightarrow> int"
    \<comment> \<open>\<^verbatim>\<open>new Date(ms).getFullYear()\<close>\<close>
  date_getMonth :: "int \<Rightarrow> int"
    \<comment> \<open>\<^verbatim>\<open>new Date(ms).getMonth()\<close>, from 0\<close>
  atob :: "string \<Rightarrow> string option"
    \<comment> \<open>base64 to a binary string; None when it throws\<close>
  btoa :: "string \<Rightarrow> string"
    \<comment> \<open>a binary string to base64\<close>
  json_parse :: "string \<Rightarrow> json option"
    \<comment> \<open>\<^verbatim>\<open>JSON.parse\<close>; None when it throws\<close>
  json_stringify :: "json \<Rightarrow> string"
    \<comment> \<open>\<^verbatim>\<open>JSON.stringify(v, null, 2)\<close>\<close>

definition number_to_string :: "platform \<Rightarrow> rat \<Rightarrow> string" where
  "number_to_string P q =
     (if of_int \<lfloor>q\<rfloor> = q then int_to_string \<lfloor>q\<rfloor> else fraction_to_string P q)"

section \<open>The ingestion handler\<close>

definition RATE_LIMIT_WINDOW :: int where
  "RATE_LIMIT_WINDOW = 60"

definition RATE_LIMIT_MAX_REQUESTS :: int where
  "RATE_LIMIT_MAX_REQUESTS = 10"

definition IDEMPOTENCY_WINDOW :: int where
  "IDEMPOTENCY_WINDOW = 5"

record request =
  req_url :: string
  headers :: "string \<rightharpoonup> string"
  req_body :: "json option"
    \<comment> \<open>\<^verbatim>\<open>await request.json()\<close>; None when it throws\<close>

subsection \<open>getClientIP\<close>

definition is_space :: "char \<Rightarrow> bool" where
  "is_space c = (of_char c \<in> {9, 10, 11, 12, 13, 32, 160 :: nat})"

definition trim :: "string \<Rightarrow> string" where
  "trim s = rev (dropWhile is_space (rev (dropWhile is_space s)))"

definition getClientIP :: "request \<Rightarrow> string" where
  "getClientIP request =
     (let cfConnectingIP = headers request ''CF-Connecting-IP'' in
      if present cfConnectingIP then the cfConnectingIP
      else
        let forwarded = headers request ''X-Forwarded-For'' in
        if present forwarded then trim (takeWhile (\<lambda>c. c \<noteq> CHR '','') (the forwarded))
        else ''unknown'')"

subsection \<open>isSameOrigin\<close>

definition isSameOrigin :: "platform \<Rightarrow> request \<Rightarrow> string \<Rightarrow> bool" where
  "isSameOrigin P request expectedOrigin =
     (let origin = headers request ''Origin'' in
      if \<not> present origin then False
      else
        (case url_hostname P (the origin) of
           None \<Rightarrow> False
         | Some originHost \<Rightarrow>
             (case url_hostname P expectedOrigin of
                None \<Rightarrow> False
              | Some expectedHost \<Rightarrow> originHost = expectedHost)))"

subsection \<open>generateIdempotencyKey\<close>

text \<open>
  \<^verbatim>\<open>ToInt32\<close>: the shift and the bitwise and bring a number back into the signed 32-bit
  range. \<^verbatim>\<open>(hash << 5) - hash + char\<close> is exact in between.
\<close>

definition toInt32 :: "int \<Rightarrow> int" where
  "toInt32 x = (x + 2 ^ 31) mod 2 ^ 32 - 2 ^ 31"

fun hash_loop :: "int \<Rightarrow> string \<Rightarrow> int" where
  "hash_loop hash [] = hash"
| "hash_loop hash (c # cs) =
     hash_loop (toInt32 ((toInt32 (hash * 32) - hash) + int (of_char c))) cs"

definition generateIdempotencyKey :: "platform \<Rightarrow> string \<Rightarrow> rat \<Rightarrow> int \<Rightarrow> string" where
  "generateIdempotencyKey P ip amount timestamp =
     (let window = (timestamp div IDEMPOTENCY_WINDOW) * IDEMPOTENCY_WINDOW;
          data = ip @ '':'' @ number_to_string P amount @ '':'' @ int_to_string window;
          hash = hash_loop 0 data
      in ''idempotency:'' @ digits 16 (nat \<bar>hash\<bar>))"

subsection \<open>The D1 database\<close>

record event =
  event_id :: string
  event_type :: string
  amount_oz :: rat
  created_at :: int
  user_agent :: "string option"
  event_source :: json
  event_note :: json

text \<open>
  The three tables of \<^verbatim>\<open>migrations/0001_initial.sql\<close>: \<open>events\<close> in insertion order with
  \<open>id\<close> its primary key, \<open>rate_limits\<close> with primary key \<open>(ip, window_start)\<close> and
  \<open>idempotency_keys\<close> with primary key \<open>key_hash\<close>.
\<close>

record d1 =
  events :: "event list"
  rate_limits :: "string \<times> int \<rightharpoonup> int"
  idempotency_keys :: "string \<rightharpoonup> int"

text \<open>
  The statements the handler runs. A statement can fail in the database (it then throws
  and changes nothing): the statements that do so during one request are an input.
\<close>

datatype stmt =
    SelectRateLimit | InsertRateLimit | UpdateRateLimit | DeleteRateLimits
  | SelectIdempotencyKey | ReplaceIdempotencyKey | DeleteIdempotencyKeys
  | InsertEvent

datatype exn =
    D1Error | TypeError | FetchError | ApiError nat | SyntaxError | InvalidCharacterError

definition insert_rate_limit :: "stmt set \<Rightarrow> d1 \<Rightarrow> string \<Rightarrow> int \<Rightarrow> d1 option" where
  "insert_rate_limit F db ip windowStart =
     (if InsertRateLimit \<in> F \<or> rate_limits db (ip, windowStart) \<noteq> None then None
      else Some (db\<lparr>rate_limits := (rate_limits db)((ip, windowStart) \<mapsto> 1)\<rparr>))"

definition update_rate_limit :: "stmt set \<Rightarrow> d1 \<Rightarrow> string \<Rightarrow> int \<Rightarrow> d1 option" where
  "update_rate_limit F db ip windowStart =
     (if UpdateRateLimit \<in> F then None
      else Some (db\<lparr>rate_limits :=
             (case rate_limits db (ip, windowStart) of
                None \<Rightarrow> rate_limits db
              | Some c \<Rightarrow> (rate_limits db)((ip, windowStart) \<mapsto> c + 1))\<rparr>))"

definition delete_rate_limits :: "stmt set \<Rightarrow> d1 \<Rightarrow> int \<Rightarrow> d1 option" where
  "delete_rate_limits F db bound =
     (if DeleteRateLimits \<in> F then None
      else Some (db\<lparr>rate_limits :=
             (\<lambda>k. if snd k < bound then None else rate_limits db k)\<rparr>))"

definition replace_idempotency_key :: "stmt set \<Rightarrow> d1 \<Rightarrow> string \<Rightarrow> int \<Rightarrow> d1 option" where
  "replace_idempotency_key F db keyHash now =
     (if ReplaceIdempotencyKey \<in> F then None
      else Some (db\<lparr>idempotency_keys := (idempotency_keys db)(keyHash \<mapsto> now)\<rparr>))"

definition delete_idempotency_keys :: "stmt set \<Rightarrow> d1 \<Rightarrow> int \<Rightarrow> d1 option" where
  "delete_idempotency_keys F db bound =
     (if DeleteIdempotencyKeys \<in> F then None
      else Some (db\<lparr>idempotency_keys :=
             (\<lambda>k. case idempotency_keys db k of
                    None \<Rightarrow> None
                  | Some c \<Rightarrow> if c < bound then None else Some c)\<rparr>))"

definition insert_event :: "stmt set \<Rightarrow> d1 \<Rightarrow> event \<Rightarrow> d1 option" where
  "insert_event F db e =
     (if InsertEvent \<in> F \<or> event_id e \<in> event_id ` set (events db) then None
      else Some (db\<lparr>events := events db @ [e]\<rparr>))"

subsection \<open>checkRateLimit\<close>

text \<open>
  \<^verbatim>\<open>result?.request_count || 0\<close> after the SELECT: 0 for a missing row and for a count of 0.
\<close>

definition request_count :: "d1 \<Rightarrow> string \<Rightarrow> int \<Rightarrow> int" where
  "request_count db ip windowStart =
     (case rate_limits db (ip, windowStart) of None \<Rightarrow> 0 | Some c \<Rightarrow> c)"

text \<open>
  The result is what the promise settles to (a rejection is \<open>Inl\<close>), with the database as
  the call leaves it.
\<close>

definition checkRateLimit :: "stmt set \<Rightarrow> d1 \<Rightarrow> string \<Rightarrow> int \<Rightarrow> (exn + bool) \<times> d1" where
  "checkRateLimit F db ip now =
     (let windowStart = (now div RATE_LIMIT_WINDOW) * RATE_LIMIT_WINDOW in
      if SelectRateLimit \<in> F then (Inl D1Error, db)
      else
        let currentCount = request_count db ip windowStart in
        if currentCount \<ge> RATE_LIMIT_MAX_REQUESTS then (Inr False, db)
        else
          (case (if currentCount = 0 then insert_rate_limit F db ip windowStart
                 else update_rate_limit F db ip windowStart) of
             None \<Rightarrow> (Inl D1Error, db)
           | Some db1 \<Rightarrow>
               (case delete_rate_limits F db1 (now - 3600) of
                  None \<Rightarrow> (Inl D1Error, db1)
                | Some db2 \<Rightarrow> (Inr True, db2))))"

subsection \<open>checkIdempotency\<close>

definition checkIdempotency :: "stmt set \<Rightarrow> d1 \<Rightarrow> string \<Rightarrow> int \<Rightarrow> (exn + bool) \<times> d1" where
  "checkIdempotency F db keyHash now =
     (if SelectIdempotencyKey \<in> F then (Inl D1Error, db)
      else
        let result = idempotency_keys db keyHash in
        if (case result of None \<Rightarrow> False | Some c \<Rightarrow> now - c < IDEMPOTENCY_WINDOW)
        then (Inr False, db)
        else
          (case replace_idempotency_key F db keyHash now of
             None \<Rightarrow> (Inl D1Error, db)
           | Some db1 \<Rightarrow>
               (case delete_idempotency_keys F db1 (now - 3600) of
                  None \<Rightarrow> (Inl D1Error, db1)
                | Some db2 \<Rightarrow> (Inr True, db2))))"

subsection \<open>onRequestPost\<close>

text \<open>
  What one request draws from outside: the clock, the identifier \<^verbatim>\<open>generateUUID\<close> returns
  and the statements that fail.
\<close>

record runtime =
  date_now :: int
    \<comment> \<open>\<^verbatim>\<open>Date.now()\<close>, in milliseconds\<close>
  uuid :: string
  faults :: "stmt set"

datatype outcome = Response nat json | Rejected exn

definition error_response :: "nat \<Rightarrow> string \<Rightarrow> outcome" where
  "error_response status msg = Response status (JObj [(''error'', JStr msg)])"

definition created_response :: "string \<Rightarrow> rat \<Rightarrow> int \<Rightarrow> outcome" where
  "created_response eventId amount now =
     Response 201 (JObj [(''success'', JBool True), (''id'', JStr eventId),
       (''amount_oz'', JNum (Fin amount)), (''created_at'', JNum (Fin (of_int now)))])"

text \<open>\<^verbatim>\<open>body.amount_oz ?? 64\<close>, and the test that rejects it.\<close>

definition amount_of :: "json \<Rightarrow> json" where
  "amount_of body =
     (case property body ''amount_oz'' of
        None \<Rightarrow> JNum (Fin 64)
      | Some JNull \<Rightarrow> JNum (Fin 64)
      | Some v \<Rightarrow> v)"

definition invalid_amount :: "json \<Rightarrow> bool" where
  "invalid_amount amount =
     (case amount of
        JNum n \<Rightarrow> num_less n 0 \<or> num_greater n 10000
      | _ \<Rightarrow> True)"

definition header_or_null :: "string option \<Rightarrow> string option" where
  "header_or_null h = (if present h then h else None)"

text \<open>
  The row the handler inserts: \<^verbatim>\<open>eventId\<close>, \<^verbatim>\<open>'water'\<close>, \<^verbatim>\<open>amount\<close>, \<^verbatim>\<open>now\<close>,
  \<^verbatim>\<open>userAgent\<close>, \<^verbatim>\<open>source\<close> and \<^verbatim>\<open>note\<close>.
\<close>

definition new_event :: "runtime \<Rightarrow> request \<Rightarrow> json \<Rightarrow> rat \<Rightarrow> event" where
  "new_event rt request body amount =
     \<lparr>event_id = uuid rt, event_type = ''water'', amount_oz = amount,
      created_at = date_now rt div 1000,
      user_agent = header_or_null (headers request ''User-Agent''),
      event_source = or_null (property body ''source''),
      event_note = or_null (property body ''note'')\<rparr>"

text \<open>
  The handler: the response (or the rejection of its promise), the database it leaves,
  and the event it hands to \<^verbatim>\<open>appendEventToGitea\<close>, which it does not await.
\<close>

definition onRequestPost ::
  "platform \<Rightarrow> runtime \<Rightarrow> request \<Rightarrow> d1 \<Rightarrow> outcome \<times> d1 \<times> event option" where
  "onRequestPost P rt request db =
     (let expectedOrigin = url_origin P (req_url request) in
      if \<not> isSameOrigin P request expectedOrigin
      then (error_response 403 ''Invalid origin'', db, None)
      else
        (case req_body request of
           None \<Rightarrow> (error_response 400 ''Invalid JSON'', db, None)
         | Some JNull \<Rightarrow> (Rejected TypeError, db, None)
         | Some body \<Rightarrow>
             let amount = amount_of body in
             if invalid_amount amount
             then (error_response 400 ''Invalid amount_oz'', db, None)
             else
               let amount = (case amount of JNum (Fin q) \<Rightarrow> q | _ \<Rightarrow> 0);
                   ip = getClientIP request;
                   now = date_now rt div 1000
               in
               (case checkRateLimit (faults rt) db ip now of
                  (Inl e, db1) \<Rightarrow> (Rejected e, db1, None)
                | (Inr False, db1) \<Rightarrow> (error_response 429 ''Rate limit exceeded'', db1, None)
                | (Inr True, db1) \<Rightarrow>
                    let idempotencyKey = generateIdempotencyKey P ip amount now in
                    (case checkIdempotency (faults rt) db1 idempotencyKey now of
                       (Inl e, db2) \<Rightarrow> (Rejected e, db2, None)
                     | (Inr False, db2) \<Rightarrow> (error_response 409 ''Duplicate request'', db2, None)
                     | (Inr True, db2) \<Rightarrow>
                         let e = new_event rt request body amount in
                         (case insert_event (faults rt) db2 e of
                            None \<Rightarrow> (error_response 500 ''Internal server error'', db2, None)
                          | Some db3 \<Rightarrow>
                              (created_response (uuid rt) amount now, db3, Some e))))))"

text \<open>Requests handled one after the other, each on the database the one before left.\<close>

fun serve_all :: "platform \<Rightarrow> (runtime \<times> request) list \<Rightarrow> d1 \<Rightarrow> outcome list \<times> d1" where
  "serve_all P [] db = ([], db)"
| "serve_all P ((rt, request) # rest) db =
     (case onRequestPost P rt request db of
        (out, db1, spawned) \<Rightarrow>
          (case serve_all P rest db1 of (outs, db2) \<Rightarrow> (out # outs, db2)))"

section \<open>The archive client\<close>

record Env =
  GITEA_URL :: "string option"
  GITEA_TOKEN :: "string option"
  GITEA_OWNER :: "string option"
  GITEA_REPO :: "string option"

record GiteaConfig =
  url :: string
  token :: string
  owner :: string
  repo :: string

record GiteaFileContent =
  file_content :: string
  file_encoding :: string
  file_sha :: "string option"

definition getGiteaConfig :: "Env \<Rightarrow> GiteaConfig option" where
  "getGiteaConfig env =
     (if \<not> present (GITEA_URL env) \<or> \<not> present (GITEA_TOKEN env)
         \<or> \<not> present (GITEA_OWNER env) \<or> \<not> present (GITEA_REPO env)
      then None
      else Some \<lparr>url = the (GITEA_URL env), token = the (GITEA_TOKEN env),
                 owner = the (GITEA_OWNER env), repo = the (GITEA_REPO env)\<rparr>)"

definition padStart2 :: "string \<Rightarrow> string" where
  "padStart2 s = replicate (2 - length s) CHR ''0'' @ s"

definition getMonthlyFilePath :: "int \<Rightarrow> int \<Rightarrow> string" where
  "getMonthlyFilePath year month =
     (let monthStr = padStart2 (int_to_string month)
      in ''events/'' @ int_to_string year @ ''-'' @ monthStr @ ''.json'')"

text \<open>
  The archive server is outside the program: what it answers is an input. A GET answers
  with a status and, when its body parses, a file; a write answers with a status; either
  call can fail in the network. The header carrying the commit message (the current
  time) is left out of a write.
\<close>

datatype get_response = GetFailed | GetStatus nat "GiteaFileContent option"

datatype put_response = PutFailed | PutStatus nat

record put_request =
  put_method :: string
  put_url :: string
  put_token :: string
  put_content :: string
  put_sha :: "string option"

record archive =
  fetch_get :: "string \<Rightarrow> string \<Rightarrow> get_response"
  fetch_put :: "put_request \<Rightarrow> put_response"

definition response_ok :: "nat \<Rightarrow> bool" where
  "response_ok status = (200 \<le> status \<and> status \<le> 299)"

definition contents_url :: "GiteaConfig \<Rightarrow> string \<Rightarrow> string" where
  "contents_url config filepath =
     url config @ ''/api/v1/repos/'' @ owner config @ ''/'' @ repo config @ ''/contents/'' @ filepath"

text \<open>Each function returns what it settles to and the lines it writes to the console.\<close>

definition getFileContent ::
  "archive \<Rightarrow> GiteaConfig \<Rightarrow> string \<Rightarrow> (exn + GiteaFileContent option) \<times> string list" where
  "getFileContent net config filepath =
     (case fetch_get net (contents_url config filepath) (token config) of
        GetFailed \<Rightarrow> (Inl FetchError, [''Error fetching file from Gitea:''])
      | GetStatus status data \<Rightarrow>
          if status = 404 then (Inr None, [])
          else if \<not> response_ok status
          then (Inl (ApiError status), [''Error fetching file from Gitea:''])
          else
            (case data of
               None \<Rightarrow> (Inl SyntaxError, [''Error fetching file from Gitea:''])
             | Some file \<Rightarrow> (Inr (Some file), [])))"

text \<open>
  \<^verbatim>\<open>unescape(encodeURIComponent(content))\<close>: the UTF-8 bytes of the text, one byte for a code
  unit below 128 and two for one from 128 to 255.
\<close>

definition utf8_unit :: "char \<Rightarrow> string" where
  "utf8_unit c =
     (if of_char c < (128 :: nat) then [c]
      else [char_of (192 + of_char c div (64 :: nat)), char_of (128 + of_char c mod (64 :: nat))])"

definition utf8_encode :: "string \<Rightarrow> string" where
  "utf8_encode s = concat (map utf8_unit s)"

definition base64Content :: "platform \<Rightarrow> string \<Rightarrow> string" where
  "base64Content P content = btoa P (utf8_encode content)"

definition putFileContent ::
  "platform \<Rightarrow> archive \<Rightarrow> GiteaConfig \<Rightarrow> string \<Rightarrow> string \<Rightarrow> string option
     \<Rightarrow> (exn + unit) \<times> put_request \<times> string list" where
  "putFileContent P net config filepath content sha =
     (let request =
            \<lparr>put_method = (if present sha then ''PUT'' else ''POST''),
             put_url = contents_url config filepath,
             put_token = token config,
             put_content = base64Content P content,
             put_sha = (if present sha then sha else None)\<rparr>
      in case fetch_put net request of
           PutFailed \<Rightarrow> (Inl FetchError, request, [''Error writing file to Gitea:''])
         | PutStatus status \<Rightarrow>
             if \<not> response_ok status
             then (Inl (ApiError status), request, [''Error writing file to Gitea:''])
             else (Inr (), request, []))"

definition event_json :: "event \<Rightarrow> json" where
  "event_json e =
     JObj [(''id'', JStr (event_id e)), (''type'', JStr (event_type e)),
           (''amount_oz'', JNum (Fin (amount_oz e))),
           (''created_at'', JNum (Fin (of_int (created_at e)))),
           (''user_agent'', (case user_agent e of None \<Rightarrow> JNull | Some ua \<Rightarrow> JStr ua)),
           (''source'', event_source e), (''note'', event_note e)]"

text \<open>The text handed to \<^verbatim>\<open>JSON.parse\<close> for an existing file, and what it parses to.\<close>

definition decoded_text :: "platform \<Rightarrow> GiteaFileContent \<Rightarrow> string option" where
  "decoded_text P existingFile =
     (if file_encoding existingFile = ''base64'' then atob P (file_content existingFile)
      else Some (file_content existingFile))"

definition parse_existing :: "platform \<Rightarrow> GiteaFileContent \<Rightarrow> exn + json" where
  "parse_existing P existingFile =
     (case decoded_text P existingFile of
        None \<Rightarrow> Inl InvalidCharacterError
      | Some decoded \<Rightarrow>
          (case json_parse P decoded of None \<Rightarrow> Inl SyntaxError | Some v \<Rightarrow> Inr v))"

text \<open>\<^verbatim>\<open>events.push(event)\<close>: on an array; on any other value there is no such method.\<close>

fun push :: "json \<Rightarrow> json \<Rightarrow> exn + json" where
  "push (JArr xs) x = Inr (JArr (xs @ [x]))"
| "push _ x = Inl TypeError"

record sync_result =
  settled :: "exn + unit"
  written :: "put_request option"
  console :: "string list"

definition sync_failed :: "put_request option \<Rightarrow> string list \<Rightarrow> sync_result" where
  "sync_failed w logs =
     \<lparr>settled = Inr (), written = w, console = logs @ [''Failed to append event to Gitea:'']\<rparr>"

text \<open>
  The path of an event's file, from the year and the month of \<^verbatim>\<open>new Date(event.created_at * 1000)\<close>.
\<close>

definition monthly_path :: "platform \<Rightarrow> event \<Rightarrow> string" where
  "monthly_path P event =
     (let year = date_getFullYear P (created_at event * 1000);
          month = date_getMonth P (created_at event * 1000) + 1
      in getMonthlyFilePath year month)"

text \<open>
  \<^verbatim>\<open>events\<close> and \<^verbatim>\<open>sha\<close> after the fetch: an empty array and no \<^verbatim>\<open>sha\<close> when there is no file,
  the parsed content and the file's \<^verbatim>\<open>sha\<close> otherwise.
\<close>

definition existing_events ::
  "platform \<Rightarrow> GiteaFileContent option \<Rightarrow> exn + json \<times> string option" where
  "existing_events P existingFile =
     (case existingFile of
        None \<Rightarrow> Inr (JArr [], None)
      | Some file \<Rightarrow>
          (case parse_existing P file of
             Inl e \<Rightarrow> Inl e
           | Inr v \<Rightarrow> Inr (v, file_sha file)))"

definition appendEventToGitea :: "platform \<Rightarrow> archive \<Rightarrow> event \<Rightarrow> Env \<Rightarrow> sync_result" where
  "appendEventToGitea P net event env =
     (case getGiteaConfig env of
        None \<Rightarrow>
          \<lparr>settled = Inr (), written = None,
           console = [''Gitea config not available, skipping webhook'']\<rparr>
      | Some config \<Rightarrow>
          let filepath = monthly_path P event in
          (case getFileContent net config filepath of
             (Inl e, logs) \<Rightarrow> sync_failed None logs
           | (Inr existingFile, logs) \<Rightarrow>
               (case existing_events P existingFile of
                  Inl e \<Rightarrow> sync_failed None logs
                | Inr (events0, sha) \<Rightarrow>
                    (case push events0 (event_json event) of
                       Inl e \<Rightarrow> sync_failed None logs
                     | Inr events1 \<Rightarrow>
                         (case putFileContent P net config filepath
                                 (json_stringify P events1) sha of
                            (Inl e, request, logs1) \<Rightarrow> sync_failed (Some request) (logs @ logs1)
                          | (Inr u, request, logs1) \<Rightarrow>
                              \<lparr>settled = Inr (), written = Some request,
                               console = logs @ logs1 @
                                 [''Successfully appended event '' @ event_id event
                                    @ '' to '' @ filepath]\<rparr>)))))"

text \<open>
  One request against the whole system: the handler, and the archive call it starts
  without awaiting it. A rejection of that call would only be logged by the handler.
\<close>

definition serve ::
  "platform \<Rightarrow> archive \<Rightarrow> Env \<Rightarrow> runtime \<Rightarrow> request \<Rightarrow> d1
     \<Rightarrow> outcome \<times> d1 \<times> sync_result option" where
  "serve P net env rt request db =
     (case onRequestPost P rt request db of
        (out, db1, spawned) \<Rightarrow>
          (out, db1, map_option (\<lambda>e. appendEventToGitea P net e env) spawned))"

definition after_scheme :: "string \<Rightarrow> string option" where
  "after_scheme s =
     (if take 8 s = ''https://'' then Some (drop 8 s)
      else if take 7 s = ''http://'' then Some (drop 7 s)
      else None)"

definition simple_hostname :: "string \<Rightarrow> string option" where
  "simple_hostname s =
     (case after_scheme s of
        None \<Rightarrow> None
      | Some r \<Rightarrow>
          let h = takeWhile (\<lambda>c. c \<notin> set '':/?#'') r in
          if h = [] then None else Some h)"

definition simple_origin :: "string \<Rightarrow> string" where
  "simple_origin s =
     (case after_scheme s of
        None \<Rightarrow> ''null''
      | Some r \<Rightarrow> take (length s - length r) s @ takeWhile (\<lambda>c. c \<notin> set ''/?#'') r)"

definition utc_year_month :: "int \<Rightarrow> int \<times> int" where
  "utc_year_month ms =
     (let z = ms div 86400000 + 719468;
          era = z div 146097;
          doe = z mod 146097;
          yoe = (doe - doe div 1460 + doe div 36524 - doe div 146096) div 365;
          doy = doe - (365 * yoe + yoe div 4 - yoe div 100);
          mp = (5 * doy + 2) div 153;
          m = (if mp < 10 then mp + 3 else mp - 9)
      in (yoe + era * 400 + (if m \<le> 2 then 1 else 0), m))"

text \<open>
  A JSON value with every string in it (keys and values) passed through \<open>f\<close>.
\<close>

fun map_strings :: "(string \<Rightarrow> string) \<Rightarrow> json \<Rightarrow> json" where
  "map_strings f (JStr s) = JStr (f s)"
| "map_strings f (JArr xs) = JArr (map (map_strings f) xs)"
| "map_strings f (JObj fs) = JObj (map (\<lambda>(k, v). (f k, map_strings f v)) fs)"
| "map_strings f v = v"

text \<open>
  A platform for the scenarios: URLs of the form \<open>scheme://host[:port]/path\<close>, the calendar
  in UTC, the identity as transfer encoding in place of base64, a JSON serializer without
  indentation that writes a number as its integer part, and \<^verbatim>\<open>JSON.parse\<close> on the texts
  the scenarios hand to it.
\<close>

definition quoted :: "string \<Rightarrow> string" where
  "quoted s = [CHR 0x22] @ s @ [CHR 0x22]"

fun join :: "string \<Rightarrow> string list \<Rightarrow> string" where
  "join sep [] = []"
| "join sep [x] = x"
| "join sep (x # y # ys) = x @ sep @ join sep (y # ys)"

fun render :: "json \<Rightarrow> string" where
  "render JNull = ''null''"
| "render (JBool b) = (if b then ''true'' else ''false'')"
| "render (JNum (Fin q)) = int_to_string \<lfloor>q\<rfloor>"
| "render (JNum _) = ''null''"
| "render (JStr s) = quoted s"
| "render (JArr xs) = ''['' @ join '','' (map render xs) @ '']''"
| "render (JObj fs) = ''{'' @ join '','' (map (\<lambda>(k, v). quoted k @ '':'' @ render v) fs) @ ''}''"

definition cafe_body :: json where
  "cafe_body = JObj [(''amount_oz'', JNum (Fin 32)), (''note'', JStr (''caf'' @ [CHR 0xE9]))]"

definition db0 :: d1 where
  "db0 = \<lparr>events = [], rate_limits = Map.empty, idempotency_keys = Map.empty\<rparr>"

definition post_from :: "string \<Rightarrow> json \<Rightarrow> request" where
  "post_from ip b =
     \<lparr>req_url = ''https://log.example/api/events/water'',
      headers = [''Origin'' \<mapsto> ''https://log.example'', ''CF-Connecting-IP'' \<mapsto> ip],
      req_body = Some b\<rparr>"

definition rt_at :: "int \<Rightarrow> string \<Rightarrow> runtime" where
  "rt_at t u = \<lparr>date_now = t * 1000, uuid = u, faults = {}\<rparr>"

definition cafe_event :: event where
  "cafe_event = new_event (rt_at 1000 ''u1'') (post_from ''A'' cafe_body) cafe_body 32"

definition demo_parse :: "string \<Rightarrow> json option" where
  "demo_parse s =
     (if s = utf8_encode (render (JArr [event_json cafe_event]))
      then Some (map_strings utf8_encode (JArr [event_json cafe_event]))
      else if s = render (JArr [event_json cafe_event]) then Some (JArr [event_json cafe_event])
      else if s = ''[]'' then Some (JArr [])
      else None)"

definition P0 :: platform where
  "P0 = \<lparr>fraction_to_string = (\<lambda>q. []), url_origin = simple_origin, url_hostname = simple_hostname,
     date_getFullYear = (\<lambda>ms. fst (utc_year_month ms)),
     date_getMonth = (\<lambda>ms. snd (utc_year_month ms) - 1), atob = Some, btoa = (\<lambda>s. s),
     json_parse = demo_parse, json_stringify = render\<rparr>"

definition rate_stmts :: "stmt set" where
  "rate_stmts = {SelectRateLimit, InsertRateLimit, UpdateRateLimit, DeleteRateLimits}"

definition idempotency_stmts :: "stmt set" where
  "idempotency_stmts = {SelectIdempotencyKey, ReplaceIdempotencyKey, DeleteIdempotencyKeys}"

definition window_start :: "int \<Rightarrow> int" where
  "window_start now = (now div RATE_LIMIT_WINDOW) * RATE_LIMIT_WINDOW"

definition counted :: "d1 \<Rightarrow> string \<Rightarrow> int \<Rightarrow> d1" where
  "counted db ip now =
     db\<lparr>rate_limits := (\<lambda>k. if snd k < now - 3600 then None
          else ((rate_limits db)((ip, window_start now) \<mapsto>
                  request_count db ip (window_start now) + 1)) k)\<rparr>"

definition recorded :: "d1 \<Rightarrow> string \<Rightarrow> int \<Rightarrow> d1" where
  "recorded db keyHash now =
     db\<lparr>idempotency_keys := (\<lambda>k.
          case ((idempotency_keys db)(keyHash \<mapsto> now)) k of
            None \<Rightarrow> None
          | Some c \<Rightarrow> if c < now - 3600 then None else Some c)\<rparr>"

definition reaches_limiter :: "platform \<Rightarrow> request \<Rightarrow> rat \<Rightarrow> bool" where
  "reaches_limiter P request a =
     (isSameOrigin P request (url_origin P (req_url request)) \<and>
      (case req_body request of
         None \<Rightarrow> False
       | Some b \<Rightarrow> b \<noteq> JNull \<and> amount_of b = JNum (Fin a) \<and> 0 \<le> a \<and> a \<le> 10000))"

definition allowed :: "d1 \<Rightarrow> string \<Rightarrow> int \<Rightarrow> bool" where
  "allowed db ip now =
     (request_count db ip (window_start now) < RATE_LIMIT_MAX_REQUESTS \<and>
      rate_limits db (ip, window_start now) \<noteq> Some 0)"

definition fresh_key :: "d1 \<Rightarrow> string \<Rightarrow> int \<Rightarrow> bool" where
  "fresh_key db keyHash now =
     (case idempotency_keys db keyHash of
        None \<Rightarrow> True
      | Some c \<Rightarrow> IDEMPOTENCY_WINDOW \<le> now - c)"

definition tap32 :: json where
  "tap32 = JObj [(''amount_oz'', JNum (Fin 32)), (''source'', JStr ''tap'')]"

definition tap_event :: "string \<Rightarrow> string \<Rightarrow> int \<Rightarrow> event" where
  "tap_event ip u t = new_event (rt_at t u) (post_from ip tap32) tap32 32"

definition dbS1 :: d1 where
  "dbS1 = (recorded (counted db0 ''A'' 1000) ''idempotency:10dcca61'' 1000)
            \<lparr>events := [tap_event ''A'' ''u1'' 1000]\<rparr>"

definition evil_post :: request where
  "evil_post =
     \<lparr>req_url = ''https://log.example/api/events/water'',
      headers = [''Origin'' \<mapsto> ''https://evil.example'', ''CF-Connecting-IP'' \<mapsto> ''A''],
      req_body = Some tap32\<rparr>"

definition anonymous_post :: "string \<Rightarrow> request" where
  "anonymous_post agent =
     \<lparr>req_url = ''https://log.example/api/events/water'',
      headers = [''Origin'' \<mapsto> ''https://log.example'', ''User-Agent'' \<mapsto> agent],
      req_body = Some tap32\<rparr>"

definition null_amount :: json where
  "null_amount = JObj [(''amount_oz'', JNull), (''source'', JStr ''tap'')]"

definition negative_amount :: json where
  "negative_amount = JObj [(''amount_oz'', JNum (Fin (- 1)))]"

definition colliding_address :: string where
  "colliding_address = ''2001:db8::2661:ef4e''"

text \<open>The database after the first request of the scenario and \<open>n\<close> identical repeats at 1000.\<close>

fun repeated :: "nat \<Rightarrow> d1 \<Rightarrow> d1" where
  "repeated 0 d = d"
| "repeated (Suc n) d = repeated n (counted d ''A'' 1000)"

text \<open>A request that gets as far as the limiter, from the address \<open>ip\<close> in the window \<open>w\<close>.\<close>

definition limited_request :: "platform \<Rightarrow> string \<Rightarrow> int \<Rightarrow> runtime \<times> request \<Rightarrow> bool" where
  "limited_request P ip w x =
     ((\<exists>a. reaches_limiter P (snd x) a) \<and> getClientIP (snd x) = ip \<and>
      window_start (date_now (fst x) div 1000) = w \<and> faults (fst x) \<inter> rate_stmts = {})"

definition env0 :: Env where
  "env0 = \<lparr>GITEA_URL = Some ''https://git.example'', GITEA_TOKEN = Some ''secret'',
            GITEA_OWNER = Some ''wintermute'', GITEA_REPO = Some ''log''\<rparr>"

definition unreachable :: archive where
  "unreachable = \<lparr>fetch_get = (\<lambda>u t. GetFailed), fetch_put = (\<lambda>r. PutFailed)\<rparr>"

text \<open>The write of a sync reached the archive and was accepted.\<close>

definition write_accepted :: "archive \<Rightarrow> sync_result \<Rightarrow> bool" where
  "write_accepted net r =
     (case written r of
        None \<Rightarrow> False
      | Some request \<Rightarrow>
          (case fetch_put net request of
             PutFailed \<Rightarrow> False
           | PutStatus status \<Rightarrow> response_ok status))"

definition cafe_file :: GiteaFileContent where
  "cafe_file = \<lparr>file_content = base64Content P0 (json_stringify P0 (JArr [event_json cafe_event])),
                 file_encoding = ''base64'', file_sha = Some ''abc123''\<rparr>"

definition cafe_archive :: archive where
  "cafe_archive = \<lparr>fetch_get = (\<lambda>u t. GetStatus 200 (Some cafe_file)),
                    fetch_put = (\<lambda>r. PutStatus 200)\<rparr>"

section \<open>Properties\<close>

lemma onRequestPost_forbidden:
  assumes "\<not> isSameOrigin P request (url_origin P (req_url request))"
  shows "onRequestPost P rt request db = (error_response 403 ''Invalid origin'', db, None)"
  using assms by (simp add: onRequestPost_def)

lemma isSameOrigin_iff:
  "isSameOrigin P request expectedOrigin \<longleftrightarrow>
     present (headers request ''Origin'') \<and>
     url_hostname P (the (headers request ''Origin'')) \<noteq> None \<and>
     url_hostname P (the (headers request ''Origin'')) = url_hostname P expectedOrigin"
  by (auto simp: isSameOrigin_def Let_def split: option.splits)

text \<open>
  Claim C5. A request whose \<^verbatim>\<open>Origin\<close> header is missing (or empty), does not parse as a
  URL, or names a host other than the host of the request's own URL is answered with 403,
  whatever its body is; the database the handler returns is the one it was given (no
  event, counter or idempotency record is read or written) and no archive call is started.
\<close>

theorem origin_mismatch_forbidden:
  assumes "\<not> present (headers request ''Origin'')
         \<or> url_hostname P (the (headers request ''Origin'')) = None
         \<or> url_hostname P (the (headers request ''Origin''))
             \<noteq> url_hostname P (url_origin P (req_url request))"
  shows "onRequestPost P rt request db = (error_response 403 ''Invalid origin'', db, None)"
proof -
  from assms have "\<not> isSameOrigin P request (url_origin P (req_url request))"
    by (auto simp: isSameOrigin_iff)
  then show ?thesis by (rule onRequestPost_forbidden)
qed

lemma getClientIP_unknown:
  assumes "\<not> present (headers request ''CF-Connecting-IP'')"
    and "\<not> present (headers request ''X-Forwarded-For'')"
  shows "getClientIP request = ''unknown''"
  using assms by (simp add: getClientIP_def)

lemma onRequestPost_invalid_json:
  assumes "isSameOrigin P request (url_origin P (req_url request))"
    and "req_body request = None"
  shows "onRequestPost P rt request db = (error_response 400 ''Invalid JSON'', db, None)"
  using assms by (simp add: onRequestPost_def)

lemma onRequestPost_null_body:
  assumes "isSameOrigin P request (url_origin P (req_url request))"
    and "req_body request = Some JNull"
  shows "onRequestPost P rt request db = (Rejected TypeError, db, None)"
  using assms by (simp add: onRequestPost_def)

lemma onRequestPost_invalid_amount:
  assumes "isSameOrigin P request (url_origin P (req_url request))"
    and "req_body request = Some b" and "b \<noteq> JNull"
    and "invalid_amount (amount_of b)"
  shows "onRequestPost P rt request db = (error_response 400 ''Invalid amount_oz'', db, None)"
  using assms by (cases b) (simp_all add: onRequestPost_def)

lemma onRequestPost_checked:
  assumes "isSameOrigin P request (url_origin P (req_url request))"
    and "req_body request = Some b" and "b \<noteq> JNull"
    and "amount_of b = JNum (Fin a)" and "0 \<le> a" and "a \<le> 10000"
  shows "onRequestPost P rt request db =
     (case checkRateLimit (faults rt) db (getClientIP request) (date_now rt div 1000) of
        (Inl e, db1) \<Rightarrow> (Rejected e, db1, None)
      | (Inr False, db1) \<Rightarrow> (error_response 429 ''Rate limit exceeded'', db1, None)
      | (Inr True, db1) \<Rightarrow>
          (case checkIdempotency (faults rt) db1
                  (generateIdempotencyKey P (getClientIP request) a (date_now rt div 1000))
                  (date_now rt div 1000) of
             (Inl e, db2) \<Rightarrow> (Rejected e, db2, None)
           | (Inr False, db2) \<Rightarrow> (error_response 409 ''Duplicate request'', db2, None)
           | (Inr True, db2) \<Rightarrow>
               (case insert_event (faults rt) db2 (new_event rt request b a) of
                  None \<Rightarrow> (error_response 500 ''Internal server error'', db2, None)
                | Some db3 \<Rightarrow>
                    (created_response (uuid rt) a (date_now rt div 1000), db3,
                     Some (new_event rt request b a)))))"
  using assms
  by (cases b)
     (auto simp: onRequestPost_def invalid_amount_def Let_def
           split: prod.splits sum.splits bool.splits option.splits)

lemma window_start_bounds: "window_start now \<le> now \<and> now < window_start now + 60"
  unfolding window_start_def RATE_LIMIT_WINDOW_def by presburger

lemma checkRateLimit_deny:
  assumes "SelectRateLimit \<notin> F"
    and "RATE_LIMIT_MAX_REQUESTS \<le> request_count db ip (window_start now)"
  shows "checkRateLimit F db ip now = (Inr False, db)"
  using assms by (simp add: checkRateLimit_def window_start_def Let_def)

lemma checkRateLimit_allow:
  assumes "F \<inter> rate_stmts = {}"
    and "request_count db ip (window_start now) < RATE_LIMIT_MAX_REQUESTS"
    and "rate_limits db (ip, window_start now) \<noteq> Some 0"
  shows "checkRateLimit F db ip now =
     (Inr True,
      db\<lparr>rate_limits := (\<lambda>k. if snd k < now - 3600 then None
          else ((rate_limits db)((ip, window_start now) \<mapsto>
                  request_count db ip (window_start now) + 1)) k)\<rparr>)"
proof (cases "rate_limits db (ip, window_start now)")
  case None
  with assms show ?thesis
    by (simp add: checkRateLimit_def window_start_def Let_def rate_stmts_def request_count_def
        insert_rate_limit_def delete_rate_limits_def cong: if_cong)
next
  case (Some c)
  with assms show ?thesis
    by (simp add: checkRateLimit_def window_start_def Let_def rate_stmts_def request_count_def
        update_rate_limit_def delete_rate_limits_def cong: if_cong)
qed

lemma checkRateLimit_frame:
  "events (snd (checkRateLimit F db ip now)) = events db \<and>
   idempotency_keys (snd (checkRateLimit F db ip now)) = idempotency_keys db"
  by (auto simp: checkRateLimit_def Let_def insert_rate_limit_def update_rate_limit_def
        delete_rate_limits_def split: option.splits if_splits)

lemma checkRateLimit_False:
  "fst (checkRateLimit F db ip now) = Inr False \<Longrightarrow> snd (checkRateLimit F db ip now) = db"
  by (auto simp: checkRateLimit_def Let_def split: option.splits if_splits)

lemma checkRateLimit_True:
  assumes "checkRateLimit F db ip now = (Inr True, db1)"
  shows "rate_limits db1 (ip, window_start now) = Some (request_count db ip (window_start now) + 1)"
proof -
  have "now - 3600 \<le> window_start now"
    using window_start_bounds [of now] by linarith
  with assms show ?thesis
    by (auto simp: checkRateLimit_def Let_def window_start_def request_count_def
          insert_rate_limit_def update_rate_limit_def delete_rate_limits_def
          split: option.splits if_splits)
qed

lemma checkIdempotency_duplicate:
  assumes "SelectIdempotencyKey \<notin> F"
    and "idempotency_keys db keyHash = Some c" and "now - c < IDEMPOTENCY_WINDOW"
  shows "checkIdempotency F db keyHash now = (Inr False, db)"
  using assms by (simp add: checkIdempotency_def)

lemma checkIdempotency_admit:
  assumes "F \<inter> idempotency_stmts = {}"
    and "\<forall>c. idempotency_keys db keyHash = Some c \<longrightarrow> IDEMPOTENCY_WINDOW \<le> now - c"
  shows "checkIdempotency F db keyHash now =
     (Inr True,
      db\<lparr>idempotency_keys := (\<lambda>k.
          case ((idempotency_keys db)(keyHash \<mapsto> now)) k of
            None \<Rightarrow> None
          | Some c \<Rightarrow> if c < now - 3600 then None else Some c)\<rparr>)"
  using assms
  by (cases "idempotency_keys db keyHash")
     (auto simp: checkIdempotency_def idempotency_stmts_def replace_idempotency_key_def
        delete_idempotency_keys_def Let_def)

lemma checkIdempotency_frame:
  "events (snd (checkIdempotency F db keyHash now)) = events db \<and>
   rate_limits (snd (checkIdempotency F db keyHash now)) = rate_limits db"
  by (auto simp: checkIdempotency_def Let_def replace_idempotency_key_def
        delete_idempotency_keys_def split: option.splits if_splits)

lemma checkIdempotency_False:
  "fst (checkIdempotency F db keyHash now) = Inr False \<Longrightarrow>
   snd (checkIdempotency F db keyHash now) = db"
  by (auto simp: checkIdempotency_def Let_def split: option.splits if_splits)

lemma checkIdempotency_True:
  assumes "checkIdempotency F db keyHash now = (Inr True, db1)"
  shows "idempotency_keys db1 keyHash = Some now"
  using assms
  by (auto simp: checkIdempotency_def Let_def replace_idempotency_key_def
        delete_idempotency_keys_def split: option.splits if_splits)

lemma responses_distinct [simp]:
  "error_response s m = error_response s' m' \<longleftrightarrow> s = s' \<and> m = m'"
  "error_response s m \<noteq> created_response i a t"
  "created_response i a t \<noteq> error_response s m"
  "error_response s m \<noteq> Rejected e"
  "Rejected e \<noteq> error_response s m"
  "created_response i a t \<noteq> Rejected e"
  "Rejected e \<noteq> created_response i a t"
  by (auto simp: error_response_def created_response_def)

lemma valid_amount_iff:
  "\<not> invalid_amount v \<longleftrightarrow> (\<exists>a. v = JNum (Fin a) \<and> 0 \<le> a \<and> a \<le> 10000)"
proof (cases v)
  case (JNum n)
  then show ?thesis by (cases n) (auto simp: invalid_amount_def)
qed (auto simp: invalid_amount_def)

lemma onRequestPost_duplicate_iff:
  assumes "fst (onRequestPost P rt request db) = error_response 409 ''Duplicate request''"
  shows "\<exists>b a. req_body request = Some b \<and> amount_of b = JNum (Fin a) \<and>
           fst (checkRateLimit (faults rt) db (getClientIP request) (date_now rt div 1000)) = Inr True \<and>
           fst (checkIdempotency (faults rt)
                  (snd (checkRateLimit (faults rt) db (getClientIP request) (date_now rt div 1000)))
                  (generateIdempotencyKey P (getClientIP request) a (date_now rt div 1000))
                  (date_now rt div 1000)) = Inr False \<and>
           onRequestPost P rt request db =
             (error_response 409 ''Duplicate request'',
              snd (checkRateLimit (faults rt) db (getClientIP request) (date_now rt div 1000)), None)"
proof -
  let ?now = "date_now rt div 1000"
  let ?ip = "getClientIP request"
  have so: "isSameOrigin P request (url_origin P (req_url request))"
  proof (rule ccontr)
    assume n: "\<not> isSameOrigin P request (url_origin P (req_url request))"
    show False using assms onRequestPost_forbidden [OF n, of rt db] by simp
  qed
  have "req_body request \<noteq> None"
  proof
    assume n: "req_body request = None"
    show False using assms onRequestPost_invalid_json [OF so n, of rt db] by simp
  qed
  moreover have "req_body request \<noteq> Some JNull"
  proof
    assume n: "req_body request = Some JNull"
    show False using assms onRequestPost_null_body [OF so n, of rt db] by simp
  qed
  ultimately obtain b where b: "req_body request = Some b" "b \<noteq> JNull"
    by (cases "req_body request") auto
  have valid: "\<not> invalid_amount (amount_of b)"
  proof
    assume n: "invalid_amount (amount_of b)"
    show False using assms onRequestPost_invalid_amount [OF so b n, of rt db] by simp
  qed
  then obtain a where a: "amount_of b = JNum (Fin a)" "0 \<le> a" "a \<le> 10000"
    unfolding valid_amount_iff by blast
  note eq = onRequestPost_checked [OF so b a, of rt db]
  obtain r1 db1 where r1: "checkRateLimit (faults rt) db ?ip ?now = (r1, db1)"
    by (cases "checkRateLimit (faults rt) db ?ip ?now")
  obtain r2 db2 where r2:
    "checkIdempotency (faults rt) db1 (generateIdempotencyKey P ?ip a ?now) ?now = (r2, db2)"
    by (cases "checkIdempotency (faults rt) db1 (generateIdempotencyKey P ?ip a ?now) ?now")
  have r1T: "r1 = Inr True"
    using assms r1 unfolding eq
    by (auto split: sum.splits bool.splits prod.splits option.splits)
  have r2F: "r2 = Inr False"
    using assms r1 r1T r2 unfolding eq
    by (auto split: sum.splits bool.splits prod.splits option.splits)
  have "db2 = db1"
    using checkIdempotency_False [of "faults rt" db1 "generateIdempotencyKey P ?ip a ?now" ?now]
      r2 r2F by simp
  then show ?thesis
    using b a r1 r1T r2 r2F eq by auto
qed

lemma onRequestPost_cases
  [case_names forbidden invalid_json null_body invalid_amount rate_error rate_limited
     idempotency_error duplicate insert_failed created]:
  fixes P rt request db
  defines "ip \<equiv> getClientIP request" and "now \<equiv> date_now rt div 1000"
  obtains
    "\<not> isSameOrigin P request (url_origin P (req_url request))"
    "onRequestPost P rt request db = (error_response 403 ''Invalid origin'', db, None)"
  | "isSameOrigin P request (url_origin P (req_url request))" "req_body request = None"
    "onRequestPost P rt request db = (error_response 400 ''Invalid JSON'', db, None)"
  | "isSameOrigin P request (url_origin P (req_url request))" "req_body request = Some JNull"
    "onRequestPost P rt request db = (Rejected TypeError, db, None)"
  | b where "isSameOrigin P request (url_origin P (req_url request))"
    "req_body request = Some b" "b \<noteq> JNull" "invalid_amount (amount_of b)"
    "onRequestPost P rt request db = (error_response 400 ''Invalid amount_oz'', db, None)"
  | b a e db1 where "isSameOrigin P request (url_origin P (req_url request))"
    "req_body request = Some b" "b \<noteq> JNull"
    "amount_of b = JNum (Fin a)" "0 \<le> a" "a \<le> 10000"
    "checkRateLimit (faults rt) db ip now = (Inl e, db1)"
    "onRequestPost P rt request db = (Rejected e, db1, None)"
  | b a db1 where "isSameOrigin P request (url_origin P (req_url request))"
    "req_body request = Some b" "b \<noteq> JNull"
    "amount_of b = JNum (Fin a)" "0 \<le> a" "a \<le> 10000"
    "checkRateLimit (faults rt) db ip now = (Inr False, db1)"
    "onRequestPost P rt request db = (error_response 429 ''Rate limit exceeded'', db1, None)"
  | b a e db1 db2 where "isSameOrigin P request (url_origin P (req_url request))"
    "req_body request = Some b" "b \<noteq> JNull"
    "amount_of b = JNum (Fin a)" "0 \<le> a" "a \<le> 10000"
    "checkRateLimit (faults rt) db ip now = (Inr True, db1)"
    "checkIdempotency (faults rt) db1 (generateIdempotencyKey P ip a now) now = (Inl e, db2)"
    "onRequestPost P rt request db = (Rejected e, db2, None)"
  | b a db1 db2 where "isSameOrigin P request (url_origin P (req_url request))"
    "req_body request = Some b" "b \<noteq> JNull"
    "amount_of b = JNum (Fin a)" "0 \<le> a" "a \<le> 10000"
    "checkRateLimit (faults rt) db ip now = (Inr True, db1)"
    "checkIdempotency (faults rt) db1 (generateIdempotencyKey P ip a now) now = (Inr False, db2)"
    "onRequestPost P rt request db = (error_response 409 ''Duplicate request'', db2, None)"
  | b a db1 db2 where "isSameOrigin P request (url_origin P (req_url request))"
    "req_body request = Some b" "b \<noteq> JNull"
    "amount_of b = JNum (Fin a)" "0 \<le> a" "a \<le> 10000"
    "checkRateLimit (faults rt) db ip now = (Inr True, db1)"
    "checkIdempotency (faults rt) db1 (generateIdempotencyKey P ip a now) now = (Inr True, db2)"
    "insert_event (faults rt) db2 (new_event rt request b a) = None"
    "onRequestPost P rt request db = (error_response 500 ''Internal server error'', db2, None)"
  | b a db1 db2 db3 where "isSameOrigin P request (url_origin P (req_url request))"
    "req_body request = Some b" "b \<noteq> JNull"
    "amount_of b = JNum (Fin a)" "0 \<le> a" "a \<le> 10000"
    "checkRateLimit (faults rt) db ip now = (Inr True, db1)"
    "checkIdempotency (faults rt) db1 (generateIdempotencyKey P ip a now) now = (Inr True, db2)"
    "insert_event (faults rt) db2 (new_event rt request b a) = Some db3"
    "onRequestPost P rt request db =
       (created_response (uuid rt) a now, db3, Some (new_event rt request b a))"
proof (cases "isSameOrigin P request (url_origin P (req_url request))")
  case False
  then show ?thesis using that(1) onRequestPost_forbidden by blast
next
  case so: True
  show ?thesis
  proof (cases "req_body request")
    case None
    then show ?thesis using that(2) so onRequestPost_invalid_json by blast
  next
    case (Some b)
    show ?thesis
    proof (cases "b = JNull")
      case True
      then show ?thesis using that(3) so Some onRequestPost_null_body by blast
    next
      case nn: False
      show ?thesis
      proof (cases "invalid_amount (amount_of b)")
        case True
        then show ?thesis using that(4) so Some nn onRequestPost_invalid_amount by blast
      next
        case False
        then obtain a where a: "amount_of b = JNum (Fin a)" "0 \<le> a" "a \<le> 10000"
          unfolding valid_amount_iff by blast
        note eq = onRequestPost_checked [OF so Some nn a, of rt db, folded ip_def now_def]
        obtain r1 db1 where r1: "checkRateLimit (faults rt) db ip now = (r1, db1)"
          by (cases "checkRateLimit (faults rt) db ip now")
        obtain r2 db2 where r2:
          "checkIdempotency (faults rt) db1 (generateIdempotencyKey P ip a now) now = (r2, db2)"
          by (cases "checkIdempotency (faults rt) db1 (generateIdempotencyKey P ip a now) now")
        show ?thesis
        proof (cases r1)
          case (Inl e)
          then show ?thesis using that(5) [OF so Some nn a] r1 eq by simp
        next
          case (Inr ok1)
          show ?thesis
          proof (cases ok1)
            case False
            then show ?thesis using that(6) [OF so Some nn a] r1 Inr eq by simp
          next
            case True
            have r1T: "checkRateLimit (faults rt) db ip now = (Inr True, db1)"
              using r1 Inr True by simp
            show ?thesis
            proof (cases r2)
              case (Inl e)
              then show ?thesis using that(7) [OF so Some nn a r1T] r2 eq r1T by simp
            next
              case (Inr ok2)
              show ?thesis
              proof (cases ok2)
                case False
                then show ?thesis using that(8) [OF so Some nn a r1T] r2 Inr eq r1T by simp
              next
                case True
                have r2T: "checkIdempotency (faults rt) db1 (generateIdempotencyKey P ip a now) now
                    = (Inr True, db2)"
                  using r2 Inr True by simp
                show ?thesis
                proof (cases "insert_event (faults rt) db2 (new_event rt request b a)")
                  case None
                  then show ?thesis using that(9) [OF so Some nn a r1T r2T] eq r1T r2T by simp
                next
                  case (Some db3)
                  then show ?thesis using that(10) [OF so \<open>req_body request = Some b\<close> nn a r1T r2T] eq r1T r2T by simp
                qed
              qed
            qed
          qed
        qed
      qed
    qed
  qed
qed

lemma checkRateLimit_counted:
  assumes "F \<inter> rate_stmts = {}" and "allowed db ip now"
  shows "checkRateLimit F db ip now = (Inr True, counted db ip now)"
  using assms checkRateLimit_allow [of F db ip now] by (simp add: allowed_def counted_def)

lemma checkIdempotency_recorded:
  assumes "F \<inter> idempotency_stmts = {}" and "fresh_key db keyHash now"
  shows "checkIdempotency F db keyHash now = (Inr True, recorded db keyHash now)"
proof -
  from assms(2) have "\<forall>c. idempotency_keys db keyHash = Some c \<longrightarrow> IDEMPOTENCY_WINDOW \<le> now - c"
    by (auto simp: fresh_key_def split: option.splits)
  from checkIdempotency_admit [OF assms(1) this] show ?thesis
    by (simp add: recorded_def)
qed

lemma checkIdempotency_stale:
  assumes "SelectIdempotencyKey \<notin> F" and "\<not> fresh_key db keyHash now"
  shows "checkIdempotency F db keyHash now = (Inr False, db)"
  using assms by (auto simp: fresh_key_def checkIdempotency_def split: option.splits)

lemma counted_simps [simp]:
  "events (counted db ip now) = events db"
  "idempotency_keys (counted db ip now) = idempotency_keys db"
  "rate_limits (counted db ip now) (ip, window_start now) =
     Some (request_count db ip (window_start now) + 1)"
  using window_start_bounds [of now] by (auto simp: counted_def)

lemma counted_other:
  "k \<noteq> (ip, window_start now) \<Longrightarrow>
   rate_limits (counted db ip now) k = (if snd k < now - 3600 then None else rate_limits db k)"
  by (simp add: counted_def)

lemma recorded_simps [simp]:
  "events (recorded db keyHash now) = events db"
  "rate_limits (recorded db keyHash now) = rate_limits db"
  "idempotency_keys (recorded db keyHash now) keyHash = Some now"
  by (auto simp: recorded_def)

lemma recorded_other:
  "k \<noteq> keyHash \<Longrightarrow>
   idempotency_keys (recorded db keyHash now) k =
     (case idempotency_keys db k of
        None \<Rightarrow> None
      | Some c \<Rightarrow> if c < now - 3600 then None else Some c)"
  by (simp add: recorded_def)

lemma reaches_limiterD:
  assumes "reaches_limiter P request a"
  obtains b where "isSameOrigin P request (url_origin P (req_url request))"
    "req_body request = Some b" "b \<noteq> JNull" "amount_of b = JNum (Fin a)" "0 \<le> a" "a \<le> 10000"
  using assms by (auto simp: reaches_limiter_def split: option.splits)

lemma onRequestPost_rate_limited:
  assumes "reaches_limiter P request a" and "SelectRateLimit \<notin> faults rt"
    and "RATE_LIMIT_MAX_REQUESTS
           \<le> request_count db (getClientIP request) (window_start (date_now rt div 1000))"
  shows "onRequestPost P rt request db = (error_response 429 ''Rate limit exceeded'', db, None)"
proof -
  from assms(1) obtain b where b: "isSameOrigin P request (url_origin P (req_url request))"
    "req_body request = Some b" "b \<noteq> JNull" "amount_of b = JNum (Fin a)" "0 \<le> a" "a \<le> 10000"
    by (rule reaches_limiterD)
  show ?thesis
    unfolding onRequestPost_checked [OF b] checkRateLimit_deny [OF assms(2,3)] by simp
qed

lemma onRequestPost_duplicate:
  assumes "reaches_limiter P request a" and "faults rt \<inter> rate_stmts = {}"
    and "allowed db (getClientIP request) (date_now rt div 1000)"
    and "SelectIdempotencyKey \<notin> faults rt"
    and "\<not> fresh_key db (generateIdempotencyKey P (getClientIP request) a (date_now rt div 1000))
            (date_now rt div 1000)"
  shows "onRequestPost P rt request db =
     (error_response 409 ''Duplicate request'',
      counted db (getClientIP request) (date_now rt div 1000), None)"
proof -
  from assms(1) obtain b where b: "isSameOrigin P request (url_origin P (req_url request))"
    "req_body request = Some b" "b \<noteq> JNull" "amount_of b = JNum (Fin a)" "0 \<le> a" "a \<le> 10000"
    by (rule reaches_limiterD)
  have "\<not> fresh_key (counted db (getClientIP request) (date_now rt div 1000))
          (generateIdempotencyKey P (getClientIP request) a (date_now rt div 1000))
          (date_now rt div 1000)"
    using assms(5) by (simp add: fresh_key_def)
  from checkIdempotency_stale [OF assms(4) this] show ?thesis
    unfolding onRequestPost_checked [OF b] checkRateLimit_counted [OF assms(2,3)] by simp
qed

lemma onRequestPost_created:
  assumes "reaches_limiter P request a" and "faults rt = {}"
    and "allowed db (getClientIP request) (date_now rt div 1000)"
    and "fresh_key db (generateIdempotencyKey P (getClientIP request) a (date_now rt div 1000))
            (date_now rt div 1000)"
    and "uuid rt \<notin> event_id ` set (events db)"
    and "req_body request = Some b"
  shows "onRequestPost P rt request db =
     (created_response (uuid rt) a (date_now rt div 1000),
      (recorded (counted db (getClientIP request) (date_now rt div 1000))
         (generateIdempotencyKey P (getClientIP request) a (date_now rt div 1000))
         (date_now rt div 1000))
       \<lparr>events := events db @ [new_event rt request b a]\<rparr>,
      Some (new_event rt request b a))"
proof -
  let ?ip = "getClientIP request" and ?now = "date_now rt div 1000"
  from assms(1,6) have b: "isSameOrigin P request (url_origin P (req_url request))"
    "req_body request = Some b" "b \<noteq> JNull" "amount_of b = JNum (Fin a)" "0 \<le> a" "a \<le> 10000"
    by (auto elim!: reaches_limiterD)
  have r: "checkRateLimit (faults rt) db ?ip ?now = (Inr True, counted db ?ip ?now)"
    using assms(2,3) by (intro checkRateLimit_counted) auto
  have "fresh_key (counted db ?ip ?now) (generateIdempotencyKey P ?ip a ?now) ?now"
    using assms(4) by (simp add: fresh_key_def)
  then have i: "checkIdempotency (faults rt) (counted db ?ip ?now)
        (generateIdempotencyKey P ?ip a ?now) ?now =
      (Inr True, recorded (counted db ?ip ?now) (generateIdempotencyKey P ?ip a ?now) ?now)"
    using assms(2) by (intro checkIdempotency_recorded) auto
  show ?thesis
    using assms(2,5) r i
    by (simp add: onRequestPost_checked [OF b] insert_event_def new_event_def)
qed

lemma key_A_32_1000: "generateIdempotencyKey P ''A'' 32 1000 = ''idempotency:10dcca61''"
  unfolding generateIdempotencyKey_def Let_def IDEMPOTENCY_WINDOW_def
  by (simp add: number_to_string_def int_to_string_def toInt32_def digits.simps digit_char_def)

lemma key_A_32_1002: "generateIdempotencyKey P ''A'' 32 1002 = ''idempotency:10dcca61''"
  unfolding generateIdempotencyKey_def Let_def IDEMPOTENCY_WINDOW_def
  by (simp add: number_to_string_def int_to_string_def toInt32_def digits.simps digit_char_def)

lemma key_A_32_1010: "generateIdempotencyKey P ''A'' 32 1010 = ''idempotency:10dcca80''"
  unfolding generateIdempotencyKey_def Let_def IDEMPOTENCY_WINDOW_def
  by (simp add: number_to_string_def int_to_string_def toInt32_def digits.simps digit_char_def)

lemma post_from_origin:
  "isSameOrigin P0 (post_from ip b) (url_origin P0 (req_url (post_from ip b)))"
  by (simp add: isSameOrigin_def post_from_def P0_def simple_origin_def simple_hostname_def
        after_scheme_def)

lemma post_from_ip: "ip \<noteq> [] \<Longrightarrow> getClientIP (post_from ip b) = ip"
  by (simp add: getClientIP_def post_from_def)

lemma post_from_body [simp]: "req_body (post_from ip b) = Some b"
  by (simp add: post_from_def)

lemma post_from_reaches:
  "b \<noteq> JNull \<Longrightarrow> amount_of b = JNum (Fin a) \<Longrightarrow> 0 \<le> a \<Longrightarrow> a \<le> 10000 \<Longrightarrow>
   reaches_limiter P0 (post_from ip b) a"
  using post_from_origin [of ip b] by (simp add: reaches_limiter_def post_from_def)

lemma tap32_amount: "amount_of tap32 = JNum (Fin 32)"
  by (simp add: amount_of_def tap32_def)

lemma tap32_reaches: "reaches_limiter P0 (post_from ip tap32) 32"
  by (rule post_from_reaches) (simp_all add: tap32_amount, simp add: tap32_def)

lemmas eval_defs = rt_at_def db0_def allowed_def fresh_key_def request_count_def window_start_def
  RATE_LIMIT_WINDOW_def RATE_LIMIT_MAX_REQUESTS_def IDEMPOTENCY_WINDOW_def counted_def recorded_def

lemma rt_at_simps [simp]:
  "date_now (rt_at t u) div 1000 = t" "uuid (rt_at t u) = u" "faults (rt_at t u) = {}"
  by (simp_all add: rt_at_def)

lemma tap_created:
  assumes "ip \<noteq> []" and "allowed db ip t"
    and "fresh_key db (generateIdempotencyKey P0 ip 32 t) t"
    and "u \<notin> event_id ` set (events db)"
  shows "onRequestPost P0 (rt_at t u) (post_from ip tap32) db =
     (created_response u 32 t,
      (recorded (counted db ip t) (generateIdempotencyKey P0 ip 32 t) t)
        \<lparr>events := events db @ [tap_event ip u t]\<rparr>,
      Some (tap_event ip u t))"
  using onRequestPost_created [OF tap32_reaches [of ip], where rt = "rt_at t u" and db = db and b = tap32] assms
  by (simp add: post_from_ip tap_event_def)

lemma tap_duplicate:
  assumes "ip \<noteq> []" and "allowed db ip t"
    and "\<not> fresh_key db (generateIdempotencyKey P0 ip 32 t) t"
  shows "onRequestPost P0 (rt_at t u) (post_from ip tap32) db =
     (error_response 409 ''Duplicate request'', counted db ip t, None)"
  using onRequestPost_duplicate [OF tap32_reaches [of ip], where rt = "rt_at t u" and db = db] assms
  by (simp add: post_from_ip)

lemma tap_rate_limited:
  assumes "ip \<noteq> []" and "RATE_LIMIT_MAX_REQUESTS \<le> request_count db ip (window_start t)"
  shows "onRequestPost P0 (rt_at t u) (post_from ip tap32) db =
     (error_response 429 ''Rate limit exceeded'', db, None)"
  using onRequestPost_rate_limited [OF tap32_reaches [of ip], where rt = "rt_at t u" and db = db] assms
  by (simp add: post_from_ip)

lemma step1:
  "onRequestPost P0 (rt_at 1000 ''u1'') (post_from ''A'' tap32) db0 =
     (created_response ''u1'' 32 1000, dbS1, Some (tap_event ''A'' ''u1'' 1000))"
proof -
  have "onRequestPost P0 (rt_at 1000 ''u1'') (post_from ''A'' tap32) db0 =
     (created_response ''u1'' 32 1000,
      (recorded (counted db0 ''A'' 1000) (generateIdempotencyKey P0 ''A'' 32 1000) 1000)
        \<lparr>events := events db0 @ [tap_event ''A'' ''u1'' 1000]\<rparr>,
      Some (tap_event ''A'' ''u1'' 1000))"
    by (rule tap_created) (simp_all add: key_A_32_1000 eval_defs)
  then show ?thesis
    by (simp add: key_A_32_1000 dbS1_def db0_def)
qed

lemma step2:
  "onRequestPost P0 (rt_at 1002 ''u2'') (post_from ''A'' tap32) dbS1 =
     (error_response 409 ''Duplicate request'', counted dbS1 ''A'' 1002, None)"
  by (rule tap_duplicate) (simp_all add: key_A_32_1002 eval_defs dbS1_def)

theorem origin_mismatch_forbidden_witness:
  "url_hostname P0 (the (headers evil_post ''Origin''))
     \<noteq> url_hostname P0 (url_origin P0 (req_url evil_post)) \<and>
   onRequestPost P0 (rt_at 1000 ''u1'') evil_post db0 =
     (error_response 403 ''Invalid origin'', db0, None)"
proof -
  have h: "url_hostname P0 (the (headers evil_post ''Origin''))
     \<noteq> url_hostname P0 (url_origin P0 (req_url evil_post))"
    by (simp add: evil_post_def P0_def simple_origin_def simple_hostname_def after_scheme_def)
  from h origin_mismatch_forbidden [of evil_post P0 "rt_at 1000 ''u1''" db0]
  show ?thesis by blast
qed

lemma onRequestPost_cong:
  assumes "isSameOrigin P r (url_origin P (req_url r)) = isSameOrigin P r' (url_origin P (req_url r'))"
    and "req_body r = req_body r'" and "getClientIP r = getClientIP r'"
    and "headers r ''User-Agent'' = headers r' ''User-Agent''"
  shows "onRequestPost P rt r db = onRequestPost P rt r' db"
  unfolding onRequestPost_def Let_def new_event_def assms by (rule refl)

lemma anonymous_post_ip: "getClientIP (anonymous_post agent) = ''unknown''"
  by (rule getClientIP_unknown) (simp_all add: anonymous_post_def)

lemma status_409:
  "error_response s m = Response 409 body \<longleftrightarrow>
     s = 409 \<and> body = JObj [(''error'', JStr m)]"
  "Response 409 body = error_response s m \<longleftrightarrow>
     s = 409 \<and> body = JObj [(''error'', JStr m)]"
  "created_response i a t \<noteq> Response 409 body"
  "Response 409 body \<noteq> created_response i a t"
  by (auto simp: error_response_def created_response_def)

text \<open>
  Claim C10. A request answered with 409 has passed the limiter first: the limiter
  returned true, the database the handler leaves is the one the limiter left, with the
  counter of the request's address and window one above what it was, and it is on that
  database that the idempotency check returned false. The request adds no event, leaves
  the idempotency records as they were and starts no archive call.
\<close>

theorem duplicate_consumes_rate_budget:
  assumes "onRequestPost P rt request db = (Response 409 body, db', spawned)"
  shows "fst (checkRateLimit (faults rt) db (getClientIP request) (date_now rt div 1000)) = Inr True \<and>
     snd (checkRateLimit (faults rt) db (getClientIP request) (date_now rt div 1000)) = db' \<and>
     rate_limits db' (getClientIP request, window_start (date_now rt div 1000)) =
       Some (request_count db (getClientIP request) (window_start (date_now rt div 1000)) + 1) \<and>
     (\<exists>a. fst (checkIdempotency (faults rt) db'
                  (generateIdempotencyKey P (getClientIP request) a (date_now rt div 1000))
                  (date_now rt div 1000)) = Inr False) \<and>
     events db' = events db \<and> idempotency_keys db' = idempotency_keys db \<and> spawned = None"
proof (cases P rt request db rule: onRequestPost_cases)
  case (duplicate b a db1 db2)
  let ?ip = "getClientIP request" and ?now = "date_now rt div 1000"
  have db2: "db2 = db1"
    using checkIdempotency_False [of "faults rt" db1 "generateIdempotencyKey P ?ip a ?now" ?now]
      duplicate(8) by simp
  have db': "db' = db1" "spawned = None"
    using assms duplicate(9) db2 by simp_all
  have "rate_limits db1 (?ip, window_start ?now) = Some (request_count db ?ip (window_start ?now) + 1)"
    using duplicate(7) by (rule checkRateLimit_True)
  moreover have "events db1 = events db" "idempotency_keys db1 = idempotency_keys db"
    using checkRateLimit_frame [of "faults rt" db ?ip ?now] duplicate(7) by simp_all
  moreover have "fst (checkIdempotency (faults rt) db1
      (generateIdempotencyKey P ?ip a ?now) ?now) = Inr False"
    using duplicate(8) by simp
  ultimately show ?thesis
    using db' duplicate(7) by auto
qed (use assms in \<open>simp_all add: status_409\<close>)

theorem duplicate_consumes_rate_budget_witness:
  "onRequestPost P0 (rt_at 1002 ''u2'') (post_from ''A'' tap32) dbS1 =
     (Response 409 (JObj [(''error'', JStr ''Duplicate request'')]), counted dbS1 ''A'' 1002, None) \<and>
   rate_limits dbS1 (''A'', 960) = Some 1 \<and>
   rate_limits (counted dbS1 ''A'' 1002) (''A'', 960) = Some 2 \<and>
   events (counted dbS1 ''A'' 1002) = events dbS1 \<and>
   idempotency_keys (counted dbS1 ''A'' 1002) = idempotency_keys dbS1"
proof -
  have s: "onRequestPost P0 (rt_at 1002 ''u2'') (post_from ''A'' tap32) dbS1 =
     (Response 409 (JObj [(''error'', JStr ''Duplicate request'')]), counted dbS1 ''A'' 1002, None)"
    using step2 by (simp add: error_response_def)
  have c: "request_count dbS1 ''A'' 960 = 1" "window_start 1002 = 960"
    by (simp_all add: dbS1_def eval_defs)
  have i: "getClientIP (post_from ''A'' tap32) = ''A''" "date_now (rt_at 1002 ''u2'') div 1000 = 1002"
    by (simp_all add: post_from_ip)
  note t = duplicate_consumes_rate_budget [OF s, unfolded i c]
  from t have "rate_limits (counted dbS1 ''A'' 1002) (''A'', 960) = Some 2"
    by simp
  moreover from t have "events (counted dbS1 ''A'' 1002) = events dbS1"
    "idempotency_keys (counted dbS1 ''A'' 1002) = idempotency_keys dbS1"
    by blast+
  moreover have "rate_limits dbS1 (''A'', 960) = Some 1"
    by (simp add: dbS1_def eval_defs)
  ultimately show ?thesis using s by simp
qed

text \<open>
  Claim C4. For a request that has passed the origin, body and amount checks, that the
  limiter has admitted and the idempotency check has admitted, a failing insert into
  \<open>events\<close> (the statement fails in the database, or the generated id is already a
  row's key) makes the handler answer 500 ``Internal server error''. The \<open>events\<close> table
  is the one the request found: no row is added, and when the generated id was not a key
  before, no row has it after. The handler stops there: it returns the database as the
  two checks left it (their counter and record stay), runs no second insert and starts
  no archive call.
\<close>

theorem insert_failure_is_internal_error:
  assumes "reaches_limiter P request a"
    and "checkRateLimit (faults rt) db (getClientIP request) (date_now rt div 1000) = (Inr True, db1)"
    and "checkIdempotency (faults rt) db1
           (generateIdempotencyKey P (getClientIP request) a (date_now rt div 1000))
           (date_now rt div 1000) = (Inr True, db2)"
    and "InsertEvent \<in> faults rt \<or> uuid rt \<in> event_id ` set (events db)"
  shows "onRequestPost P rt request db =
           (error_response 500 ''Internal server error'', db2, None) \<and>
         events db2 = events db \<and>
         (uuid rt \<notin> event_id ` set (events db) \<longrightarrow>
            (\<forall>e \<in> set (events db2). event_id e \<noteq> uuid rt))"
proof -
  from assms(1) obtain b where b: "isSameOrigin P request (url_origin P (req_url request))"
    "req_body request = Some b" "b \<noteq> JNull" "amount_of b = JNum (Fin a)" "0 \<le> a" "a \<le> 10000"
    by (rule reaches_limiterD)
  have ev: "events db2 = events db"
    using checkRateLimit_frame [of "faults rt" db "getClientIP request" "date_now rt div 1000"]
      checkIdempotency_frame [of "faults rt" db1
        "generateIdempotencyKey P (getClientIP request) a (date_now rt div 1000)"
        "date_now rt div 1000"] assms(2,3)
    by simp
  have "insert_event (faults rt) db2 (new_event rt request b a) = None"
    using assms(4) ev by (auto simp: insert_event_def new_event_def)
  then have "onRequestPost P rt request db =
      (error_response 500 ''Internal server error'', db2, None)"
    using assms(2,3) by (simp add: onRequestPost_checked [OF b])
  with ev show ?thesis by force
qed

theorem insert_failure_is_internal_error_witness:
  "reaches_limiter P0 (post_from ''A'' tap32) 32 \<and>
   InsertEvent \<in> faults ((rt_at 1000 ''u1'')\<lparr>faults := {InsertEvent}\<rparr>) \<and>
   fst (onRequestPost P0 ((rt_at 1000 ''u1'')\<lparr>faults := {InsertEvent}\<rparr>) (post_from ''A'' tap32) db0)
     = error_response 500 ''Internal server error'' \<and>
   events (fst (snd (onRequestPost P0 ((rt_at 1000 ''u1'')\<lparr>faults := {InsertEvent}\<rparr>)
       (post_from ''A'' tap32) db0))) = []"
proof -
  let ?rt = "(rt_at 1000 ''u1'')\<lparr>faults := {InsertEvent}\<rparr>"
  have r: "checkRateLimit (faults ?rt) db0 (getClientIP (post_from ''A'' tap32)) (date_now ?rt div 1000)
      = (Inr True, counted db0 ''A'' 1000)"
    using checkRateLimit_counted [of "{InsertEvent}" db0 "''A''" 1000]
    by (simp add: post_from_ip eval_defs rate_stmts_def)
  have i: "checkIdempotency (faults ?rt) (counted db0 ''A'' 1000)
      (generateIdempotencyKey P0 (getClientIP (post_from ''A'' tap32)) 32 (date_now ?rt div 1000))
      (date_now ?rt div 1000)
      = (Inr True, recorded (counted db0 ''A'' 1000) ''idempotency:10dcca61'' 1000)"
    using checkIdempotency_recorded [of "{InsertEvent}" "counted db0 ''A'' 1000"
        "''idempotency:10dcca61''" 1000]
    by (simp add: post_from_ip key_A_32_1000 eval_defs idempotency_stmts_def)
  have f: "InsertEvent \<in> faults ?rt \<or> uuid ?rt \<in> event_id ` set (events db0)"
    by simp
  from insert_failure_is_internal_error [OF tap32_reaches r i f] tap32_reaches
  show ?thesis by (simp add: db0_def)
qed

lemma amount_of_default:
  "property b ''amount_oz'' = None \<or> property b ''amount_oz'' = Some JNull
     \<Longrightarrow> amount_of b = JNum (Fin 64)"
  by (auto simp: amount_of_def)

lemma amount_of_present:
  "property b ''amount_oz'' = Some v \<Longrightarrow> v \<noteq> JNull \<Longrightarrow> amount_of b = v"
  by (cases v) (auto simp: amount_of_def)

lemma status_201:
  "error_response s m = Response 201 body \<longleftrightarrow> s = 201 \<and> body = JObj [(''error'', JStr m)]"
  "Response 201 body = error_response s m \<longleftrightarrow> s = 201 \<and> body = JObj [(''error'', JStr m)]"
  "Rejected e \<noteq> Response 201 body"
  by (auto simp: error_response_def)

lemma onRequestPost_201:
  assumes "fst (onRequestPost P rt request db) = Response 201 body"
  obtains b a db1 db2 where "isSameOrigin P request (url_origin P (req_url request))"
    "req_body request = Some b" "b \<noteq> JNull"
    "amount_of b = JNum (Fin a)" "0 \<le> a" "a \<le> 10000"
    "checkRateLimit (faults rt) db (getClientIP request) (date_now rt div 1000) = (Inr True, db1)"
    "checkIdempotency (faults rt) db1
       (generateIdempotencyKey P (getClientIP request) a (date_now rt div 1000))
       (date_now rt div 1000) = (Inr True, db2)"
    "uuid rt \<notin> event_id ` set (events db2)"
    "onRequestPost P rt request db =
       (created_response (uuid rt) a (date_now rt div 1000),
        db2\<lparr>events := events db2 @ [new_event rt request b a]\<rparr>,
        Some (new_event rt request b a))"
proof (cases P rt request db rule: onRequestPost_cases)
  case (created b a db1 db2 db3)
  from created(9) have "uuid rt \<notin> event_id ` set (events db2)"
    "db3 = db2\<lparr>events := events db2 @ [new_event rt request b a]\<rparr>"
    by (auto simp: insert_event_def new_event_def split: if_splits)
  with created that show ?thesis by blast
qed (use assms in \<open>simp_all add: status_201\<close>)

text \<open>
  Claim C2, as amended. For a request that passes the origin check and whose body parses
  to a JSON value other than \<open>null\<close>: when \<open>amount_oz\<close> is absent or is \<open>null\<close> the amount
  is 64; any other \<open>amount_oz\<close> is taken as the amount; the amount is accepted exactly when
  it is a number from 0 to 10000; when it is not, the handler answers 400 ``Invalid
  amount_oz'' and returns the database it was given, with no archive call; and a 201
  answer carries the accepted amount.
\<close>

theorem amount_validation:
  assumes "isSameOrigin P request (url_origin P (req_url request))"
    and "req_body request = Some b" and "b \<noteq> JNull"
  shows "(property b ''amount_oz'' = None \<or> property b ''amount_oz'' = Some JNull
            \<longrightarrow> amount_of b = JNum (Fin 64)) \<and>
         (\<forall>v. property b ''amount_oz'' = Some v \<and> v \<noteq> JNull \<longrightarrow> amount_of b = v) \<and>
         (invalid_amount (amount_of b)
            \<longleftrightarrow> \<not> (\<exists>a. amount_of b = JNum (Fin a) \<and> 0 \<le> a \<and> a \<le> 10000)) \<and>
         (invalid_amount (amount_of b) \<longrightarrow>
            onRequestPost P rt request db = (error_response 400 ''Invalid amount_oz'', db, None)) \<and>
         (\<forall>body. fst (onRequestPost P rt request db) = Response 201 body \<longrightarrow>
            \<not> invalid_amount (amount_of b) \<and> property body ''amount_oz'' = Some (amount_of b))"
proof (intro conjI allI impI)
  show "amount_of b = JNum (Fin 64)"
    if "property b ''amount_oz'' = None \<or> property b ''amount_oz'' = Some JNull"
    using that by (rule amount_of_default)
  show "amount_of b = v" if "property b ''amount_oz'' = Some v \<and> v \<noteq> JNull" for v
    using that by (simp add: amount_of_present)
  show "invalid_amount (amount_of b)
      \<longleftrightarrow> \<not> (\<exists>a. amount_of b = JNum (Fin a) \<and> 0 \<le> a \<and> a \<le> 10000)"
    using valid_amount_iff [of "amount_of b"] by blast
  show "onRequestPost P rt request db = (error_response 400 ''Invalid amount_oz'', db, None)"
    if "invalid_amount (amount_of b)"
    using assms that by (rule onRequestPost_invalid_amount)
  fix body assume r: "fst (onRequestPost P rt request db) = Response 201 body"
  from r obtain b' a where *: "req_body request = Some b'" "amount_of b' = JNum (Fin a)"
    "0 \<le> a" "a \<le> 10000"
    "fst (onRequestPost P rt request db) = created_response (uuid rt) a (date_now rt div 1000)"
    by (rule onRequestPost_201) auto
  from * assms(2) have b': "b' = b" by simp
  show "\<not> invalid_amount (amount_of b)"
    using * b' valid_amount_iff [of "amount_of b"] by auto
  show "property body ''amount_oz'' = Some (amount_of b)"
    using * b' r by (auto simp: created_response_def)
qed

theorem amount_validation_witness:
  "isSameOrigin P0 (post_from ''A'' negative_amount)
     (url_origin P0 (req_url (post_from ''A'' negative_amount))) \<and>
   req_body (post_from ''A'' negative_amount) = Some negative_amount \<and>
   negative_amount \<noteq> JNull \<and> invalid_amount (amount_of negative_amount) \<and>
   onRequestPost P0 (rt_at 1000 ''u1'') (post_from ''A'' negative_amount) db0 =
     (error_response 400 ''Invalid amount_oz'', db0, None)"
proof -
  have h: "req_body (post_from ''A'' negative_amount) = Some negative_amount"
    "negative_amount \<noteq> JNull"
    by (simp_all add: post_from_def negative_amount_def)
  have i: "invalid_amount (amount_of negative_amount)"
    by (simp add: invalid_amount_def amount_of_def negative_amount_def)
  from amount_validation [OF post_from_origin h, where rt = "rt_at 1000 ''u1''" and db = db0] h i
    post_from_origin [of "''A''" negative_amount]
  show ?thesis by blast
qed

text \<open>
  The claim as written fails for \<^verbatim>\<open>{"amount_oz": null, "source": "tap"}\<close>: the member is
  present and is not a number, and the request is answered with 201 for the amount 64.
\<close>

theorem null_amount_counterexample:
  "property null_amount ''amount_oz'' = Some JNull \<and> \<not> is_number JNull \<and>
   fst (onRequestPost P0 (rt_at 1000 ''u1'') (post_from ''A'' null_amount) db0)
     = created_response ''u1'' 64 1000 \<and>
   map amount_oz (events (fst (snd (onRequestPost P0 (rt_at 1000 ''u1'')
       (post_from ''A'' null_amount) db0)))) = [64]"
proof -
  have a: "amount_of null_amount = JNum (Fin 64)"
    by (simp add: amount_of_def null_amount_def)
  have r: "reaches_limiter P0 (post_from ''A'' null_amount) 64"
    by (rule post_from_reaches) (simp_all add: a, simp add: null_amount_def)
  have k: "fresh_key db0 k 1000" for k
    by (simp add: eval_defs)
  have "onRequestPost P0 (rt_at 1000 ''u1'') (post_from ''A'' null_amount) db0 =
     (created_response (uuid (rt_at 1000 ''u1'')) 64 (date_now (rt_at 1000 ''u1'') div 1000),
      (recorded (counted db0 (getClientIP (post_from ''A'' null_amount)) (date_now (rt_at 1000 ''u1'') div 1000))
         (generateIdempotencyKey P0 (getClientIP (post_from ''A'' null_amount)) 64 (date_now (rt_at 1000 ''u1'') div 1000))
         (date_now (rt_at 1000 ''u1'') div 1000))
       \<lparr>events := events db0 @ [new_event (rt_at 1000 ''u1'') (post_from ''A'' null_amount) null_amount 64]\<rparr>,
      Some (new_event (rt_at 1000 ''u1'') (post_from ''A'' null_amount) null_amount 64))"
    by (rule onRequestPost_created [OF r])
       (simp_all add: post_from_ip k eval_defs)
  then show ?thesis
    by (simp add: rt_at_def db0_def null_amount_def new_event_def)
qed

lemma key_same_window:
  "t2 div IDEMPOTENCY_WINDOW = t1 div IDEMPOTENCY_WINDOW \<Longrightarrow>
   generateIdempotencyKey P ip a t2 = generateIdempotencyKey P ip a t1"
  by (simp add: generateIdempotencyKey_def)

lemma same_window_age:
  "(t2 :: int) div IDEMPOTENCY_WINDOW = t1 div IDEMPOTENCY_WINDOW \<Longrightarrow> t2 - t1 < IDEMPOTENCY_WINDOW"
  unfolding IDEMPOTENCY_WINDOW_def by presburger

lemma checkIdempotency_not_admitted:
  assumes "idempotency_keys db keyHash = Some c" and "now - c < IDEMPOTENCY_WINDOW"
  shows "fst (checkIdempotency F db keyHash now) \<noteq> Inr True"
  using assms by (simp add: checkIdempotency_def)

lemma checkIdempotency_True_other:
  assumes "checkIdempotency F db keyHash now = (Inr True, db1)" and "k \<noteq> keyHash"
  shows "idempotency_keys db1 k =
     (case idempotency_keys db k of
        None \<Rightarrow> None
      | Some c \<Rightarrow> if c < now - 3600 then None else Some c)"
  using assms
  by (auto simp: checkIdempotency_def Let_def replace_idempotency_key_def
        delete_idempotency_keys_def split: option.splits if_splits)

lemma onRequestPost_no_event:
  assumes "onRequestPost P rt request db = (out, db', None)"
  shows "events db' = events db"
proof (cases P rt request db rule: onRequestPost_cases)
  case (rate_error b a e db1)
  then show ?thesis
    using assms checkRateLimit_frame [of "faults rt" db "getClientIP request" "date_now rt div 1000"]
    by simp
next
  case (rate_limited b a db1)
  then show ?thesis
    using assms checkRateLimit_frame [of "faults rt" db "getClientIP request" "date_now rt div 1000"]
    by simp
next
  case (idempotency_error b a e db1 db2)
  then show ?thesis
    using assms checkRateLimit_frame [of "faults rt" db "getClientIP request" "date_now rt div 1000"]
      checkIdempotency_frame [of "faults rt" db1
        "generateIdempotencyKey P (getClientIP request) a (date_now rt div 1000)"
        "date_now rt div 1000"]
    by simp
next
  case (duplicate b a db1 db2)
  then show ?thesis
    using assms checkRateLimit_frame [of "faults rt" db "getClientIP request" "date_now rt div 1000"]
      checkIdempotency_frame [of "faults rt" db1
        "generateIdempotencyKey P (getClientIP request) a (date_now rt div 1000)"
        "date_now rt div 1000"]
    by simp
next
  case (insert_failed b a db1 db2)
  then show ?thesis
    using assms checkRateLimit_frame [of "faults rt" db "getClientIP request" "date_now rt div 1000"]
      checkIdempotency_frame [of "faults rt" db1
        "generateIdempotencyKey P (getClientIP request) a (date_now rt div 1000)"
        "date_now rt div 1000"]
    by simp
qed (use assms in simp_all)

lemma onRequestPost_spawned:
  assumes "onRequestPost P rt request db = (out, db', Some e)"
  shows "\<exists>body. out = Response 201 body"
  by (cases P rt request db rule: onRequestPost_cases)
     (use assms in \<open>simp_all add: created_response_def\<close>)

text \<open>What a request answered with 201 leaves behind.\<close>

lemma onRequestPost_201_state:
  assumes "onRequestPost P rt request db = (Response 201 body, db', spawned)"
  obtains b a where "req_body request = Some b" "reaches_limiter P request a"
    "body = JObj [(''success'', JBool True), (''id'', JStr (uuid rt)),
       (''amount_oz'', JNum (Fin a)), (''created_at'', JNum (Fin (of_int (date_now rt div 1000))))]"
    "events db' = events db @ [new_event rt request b a]"
    "spawned = Some (new_event rt request b a)"
    "idempotency_keys db'
       (generateIdempotencyKey P (getClientIP request) a (date_now rt div 1000))
       = Some (date_now rt div 1000)"
    "\<And>k. k \<noteq> generateIdempotencyKey P (getClientIP request) a (date_now rt div 1000) \<Longrightarrow>
       idempotency_keys db' k =
         (case idempotency_keys db k of
            None \<Rightarrow> None
          | Some c \<Rightarrow> if c < date_now rt div 1000 - 3600 then None else Some c)"
proof -
  let ?ip = "getClientIP request" and ?now = "date_now rt div 1000"
  from assms have "fst (onRequestPost P rt request db) = Response 201 body" by simp
  then obtain b a db1 db2 where *: "isSameOrigin P request (url_origin P (req_url request))"
    "req_body request = Some b" "b \<noteq> JNull"
    "amount_of b = JNum (Fin a)" "0 \<le> a" "a \<le> 10000"
    "checkRateLimit (faults rt) db ?ip ?now = (Inr True, db1)"
    "checkIdempotency (faults rt) db1 (generateIdempotencyKey P ?ip a ?now) ?now = (Inr True, db2)"
    "uuid rt \<notin> event_id ` set (events db2)"
    "onRequestPost P rt request db =
       (created_response (uuid rt) a ?now,
        db2\<lparr>events := events db2 @ [new_event rt request b a]\<rparr>,
        Some (new_event rt request b a))"
    by (rule onRequestPost_201)
  have f1: "events db1 = events db" "idempotency_keys db1 = idempotency_keys db"
    using checkRateLimit_frame [of "faults rt" db ?ip ?now] *(7) by simp_all
  have f2: "events db2 = events db1"
    using checkIdempotency_frame [of "faults rt" db1 "generateIdempotencyKey P ?ip a ?now" ?now] *(8)
    by simp
  have db': "db' = db2\<lparr>events := events db2 @ [new_event rt request b a]\<rparr>"
    "spawned = Some (new_event rt request b a)" "Response 201 body = created_response (uuid rt) a ?now"
    using assms *(10) by simp_all
  show ?thesis
  proof (rule that [of b a])
    show "req_body request = Some b" by (rule *(2))
    show "reaches_limiter P request a"
      using * by (simp add: reaches_limiter_def)
    show "body = JObj [(''success'', JBool True), (''id'', JStr (uuid rt)),
       (''amount_oz'', JNum (Fin a)), (''created_at'', JNum (Fin (of_int ?now)))]"
      using db'(3) by (simp add: created_response_def)
    show "events db' = events db @ [new_event rt request b a]"
      using db'(1) f1 f2 by simp
    show "spawned = Some (new_event rt request b a)" by (rule db'(2))
    show "idempotency_keys db' (generateIdempotencyKey P ?ip a ?now) = Some ?now"
      using checkIdempotency_True [OF *(8)] db'(1) by simp
    show "idempotency_keys db' k =
         (case idempotency_keys db k of
            None \<Rightarrow> None
          | Some c \<Rightarrow> if c < ?now - 3600 then None else Some c)"
      if "k \<noteq> generateIdempotencyKey P ?ip a ?now" for k
      using checkIdempotency_True_other [OF *(8) that] db'(1) f1 by simp
  qed
qed

text \<open>
  Claim C1, as amended. Two requests with the same address and the same amount whose times
  fall into the same fixed window of 5 (equal \<open>now div 5\<close>), the second handled on the
  database the first left: when the first is answered with 201, it has added exactly one
  event, and the second adds none and starts no archive call; it is never answered with
  201, and it is answered with 409 whenever it passes the origin check, its body is not
  \<open>null\<close>, the limiter admits it and the lookup of its key succeeds.
\<close>

theorem same_window_duplicate:
  assumes first: "onRequestPost P rt1 request1 db = (Response 201 body1, db1, spawned1)"
    and ip: "getClientIP request2 = getClientIP request1"
    and body1: "req_body request1 = Some b1" and body2: "req_body request2 = Some b2"
    and amount: "amount_of b2 = amount_of b1"
    and window: "(date_now rt2 div 1000) div IDEMPOTENCY_WINDOW
                   = (date_now rt1 div 1000) div IDEMPOTENCY_WINDOW"
    and second: "onRequestPost P rt2 request2 db1 = (out2, db2, spawned2)"
  shows "(\<exists>e1. events db1 = events db @ [e1]) \<and> events db2 = events db1 \<and> spawned2 = None \<and>
     (\<forall>body2. out2 \<noteq> Response 201 body2) \<and>
     (isSameOrigin P request2 (url_origin P (req_url request2)) \<and> b2 \<noteq> JNull \<and>
      fst (checkRateLimit (faults rt2) db1 (getClientIP request2) (date_now rt2 div 1000)) = Inr True \<and>
      SelectIdempotencyKey \<notin> faults rt2
        \<longrightarrow> out2 = error_response 409 ''Duplicate request'')"
proof -
  let ?ip = "getClientIP request1"
  let ?t1 = "date_now rt1 div 1000" and ?t2 = "date_now rt2 div 1000"
  from first obtain b a where 1: "req_body request1 = Some b" "reaches_limiter P request1 a"
    "events db1 = events db @ [new_event rt1 request1 b a]"
    "idempotency_keys db1 (generateIdempotencyKey P ?ip a ?t1) = Some ?t1"
    by (rule onRequestPost_201_state)
  from 1(1) body1 have b: "b = b1" by simp
  from 1(2) b body1 have a1: "amount_of b1 = JNum (Fin a)" "0 \<le> a" "a \<le> 10000"
    by (auto elim!: reaches_limiterD)
  have key: "generateIdempotencyKey P ?ip a ?t2 = generateIdempotencyKey P ?ip a ?t1"
    using window by (rule key_same_window)
  have age: "?t2 - ?t1 < IDEMPOTENCY_WINDOW"
    using window by (rule same_window_age)
  have never: "fst (checkIdempotency (faults rt2) d (generateIdempotencyKey P ?ip a ?t2) ?t2) \<noteq> Inr True"
    if "idempotency_keys d = idempotency_keys db1" for d
    using checkIdempotency_not_admitted [of d "generateIdempotencyKey P ?ip a ?t1" ?t1 ?t2 "faults rt2"]
      1(4) that age key by simp
  have frame: "idempotency_keys (snd (checkRateLimit (faults rt2) db1 ?ip ?t2)) = idempotency_keys db1"
    using checkRateLimit_frame [of "faults rt2" db1 ?ip ?t2] by simp
  have none: "spawned2 = None"
  proof (cases P rt2 request2 db1 rule: onRequestPost_cases)
    case (created b' a' d1 d2 d3)
    from created(2,4) body2 amount a1 have "a' = a" by simp
    with created(7,8) ip frame never [of d1] show ?thesis by simp
  qed (use second in simp_all)
  have ev: "events db2 = events db1"
    using second none onRequestPost_no_event by blast
  have not201: "out2 \<noteq> Response 201 body2" for body2
  proof
    assume "out2 = Response 201 body2"
    with second obtain e where "spawned2 = Some e"
      by (auto elim: onRequestPost_201_state)
    with none show False by simp
  qed
  have dup: "out2 = error_response 409 ''Duplicate request''"
    if h: "isSameOrigin P request2 (url_origin P (req_url request2))" "b2 \<noteq> JNull"
      "fst (checkRateLimit (faults rt2) db1 (getClientIP request2) ?t2) = Inr True"
      "SelectIdempotencyKey \<notin> faults rt2"
  proof -
    obtain d where r: "checkRateLimit (faults rt2) db1 (getClientIP request2) ?t2 = (Inr True, d)"
      using h(3) by (cases "checkRateLimit (faults rt2) db1 (getClientIP request2) ?t2") auto
    with frame ip have d: "idempotency_keys d = idempotency_keys db1" by simp
    have "checkIdempotency (faults rt2) d (generateIdempotencyKey P ?ip a ?t2) ?t2 = (Inr False, d)"
      using h(4) d 1(4) age key
      by (intro checkIdempotency_duplicate [where c = ?t1]) simp_all
    with r ip second show ?thesis
      by (simp add: onRequestPost_checked [OF h(1) body2 h(2) amount [unfolded a1(1)] a1(2,3)])
  qed
  from 1(3) ev none not201 dup show ?thesis by blast
qed

lemma serve_all_two:
  assumes "onRequestPost P rt1 r1 db = (o1, db1, s1)"
    and "onRequestPost P rt2 r2 db1 = (o2, db2, s2)"
  shows "serve_all P [(rt1, r1), (rt2, r2)] db = ([o1, o2], db2)"
  using assms by simp

theorem same_window_duplicate_witness:
  "amount_of tap32 = amount_of tap32 \<and>
   (1002 :: int) div IDEMPOTENCY_WINDOW = 1000 div IDEMPOTENCY_WINDOW \<and>
   serve_all P0 [(rt_at 1000 ''u1'', post_from ''A'' tap32), (rt_at 1002 ''u2'', post_from ''A'' tap32)] db0
     = ([created_response ''u1'' 32 1000, error_response 409 ''Duplicate request''],
        counted dbS1 ''A'' 1002) \<and>
   events (counted dbS1 ''A'' 1002) = [tap_event ''A'' ''u1'' 1000]"
proof -
  have w: "(1002 :: int) div IDEMPOTENCY_WINDOW = 1000 div IDEMPOTENCY_WINDOW"
    by (simp add: IDEMPOTENCY_WINDOW_def)
  have s1: "onRequestPost P0 (rt_at 1000 ''u1'') (post_from ''A'' tap32) db0 =
     (Response 201 (JObj [(''success'', JBool True), (''id'', JStr ''u1''),
        (''amount_oz'', JNum (Fin 32)), (''created_at'', JNum (Fin 1000))]),
      dbS1, Some (tap_event ''A'' ''u1'' 1000))"
    using step1 by (simp add: created_response_def)
  note t = same_window_duplicate [OF s1 refl post_from_body post_from_body refl _ step2]
  have "events (counted dbS1 ''A'' 1002) = events dbS1"
    using t w by simp
  then have "events (counted dbS1 ''A'' 1002) = [tap_event ''A'' ''u1'' 1000]"
    by (simp add: dbS1_def)
  with w serve_all_two [OF step1 step2] show ?thesis by simp
qed

lemma key_A_32_1004: "generateIdempotencyKey P ''A'' 32 1004 = ''idempotency:10dcca61''"
  using key_same_window [of 1004 1000 P "''A''" 32] key_A_32_1000
  by (simp add: IDEMPOTENCY_WINDOW_def)

lemma key_A_32_1006: "generateIdempotencyKey P ''A'' 32 1006 = ''idempotency:10dcca66''"
  unfolding generateIdempotencyKey_def Let_def IDEMPOTENCY_WINDOW_def
  by (simp add: number_to_string_def int_to_string_def toInt32_def digits.simps digit_char_def)

text \<open>
  The claim as written fails for two identical requests from \<open>A\<close> at 1004 and 1006: they
  are 2 apart, the window turns at 1005, both are answered with 201 and there are two
  events.
\<close>

theorem window_boundary_counterexample:
  "\<bar>1006 - 1004 :: int\<bar> < IDEMPOTENCY_WINDOW \<and>
   fst (serve_all P0 [(rt_at 1004 ''u1'', post_from ''A'' tap32),
                      (rt_at 1006 ''u2'', post_from ''A'' tap32)] db0)
     = [created_response ''u1'' 32 1004, created_response ''u2'' 32 1006] \<and>
   events (snd (serve_all P0 [(rt_at 1004 ''u1'', post_from ''A'' tap32),
                              (rt_at 1006 ''u2'', post_from ''A'' tap32)] db0))
     = [tap_event ''A'' ''u1'' 1004, tap_event ''A'' ''u2'' 1006]"
proof -
  let ?d1 = "(recorded (counted db0 ''A'' 1004) (generateIdempotencyKey P0 ''A'' 32 1004) 1004)
        \<lparr>events := events db0 @ [tap_event ''A'' ''u1'' 1004]\<rparr>"
  let ?d2 = "(recorded (counted ?d1 ''A'' 1006) (generateIdempotencyKey P0 ''A'' 32 1006) 1006)
        \<lparr>events := events ?d1 @ [tap_event ''A'' ''u2'' 1006]\<rparr>"
  have 1: "onRequestPost P0 (rt_at 1004 ''u1'') (post_from ''A'' tap32) db0 =
     (created_response ''u1'' 32 1004, ?d1, Some (tap_event ''A'' ''u1'' 1004))"
    by (rule tap_created) (simp_all add: key_A_32_1004 eval_defs)
  have 2: "onRequestPost P0 (rt_at 1006 ''u2'') (post_from ''A'' tap32) ?d1 =
     (created_response ''u2'' 32 1006, ?d2, Some (tap_event ''A'' ''u2'' 1006))"
    by (rule tap_created)
       (simp_all add: key_A_32_1004 key_A_32_1006 eval_defs tap_event_def new_event_def)
  show ?thesis
    unfolding serve_all_two [OF 1 2]
    by (simp add: IDEMPOTENCY_WINDOW_def db0_def)
qed

lemma later_window:
  "(t1 :: int) + IDEMPOTENCY_WINDOW \<le> t2 \<Longrightarrow> t1 div IDEMPOTENCY_WINDOW < t2 div IDEMPOTENCY_WINDOW"
  unfolding IDEMPOTENCY_WINDOW_def by linarith

text \<open>
  Claim C6. A request answered with 201 and a later one with the same address and amount
  beyond the dedupe horizon (at least 5 after the first, hence in a later window), handled
  on the database the first left: the second is admitted as a non-duplicate as well (201,
  with its own id, and both events are stored), whether or not its key is the key of the
  first, provided no record still fresh at its time was stored under its key before the
  first request, the limiter admits it, no statement fails and its id is new. In particular
  the repeat at 1010 of a request of 1000 is admitted, and the repeat at 1002 is not.
\<close>

theorem later_request_admitted:
  assumes first: "onRequestPost P rt1 request1 db = (Response 201 body1, db1, spawned1)"
    and reach1: "reaches_limiter P request1 a" and reach2: "reaches_limiter P request2 a"
    and ip: "getClientIP request2 = getClientIP request1"
    and later: "date_now rt1 div 1000 + IDEMPOTENCY_WINDOW \<le> date_now rt2 div 1000"
    and before: "fresh_key db
        (generateIdempotencyKey P (getClientIP request1) a (date_now rt2 div 1000))
        (date_now rt2 div 1000)"
    and ok: "faults rt2 = {}" "allowed db1 (getClientIP request2) (date_now rt2 div 1000)"
    and new_id: "uuid rt2 \<notin> event_id ` set (events db1)"
  shows "(date_now rt1 div 1000) div IDEMPOTENCY_WINDOW
           < (date_now rt2 div 1000) div IDEMPOTENCY_WINDOW \<and>
         fst (onRequestPost P rt2 request2 db1)
           = created_response (uuid rt2) a (date_now rt2 div 1000) \<and>
         (\<exists>e1 e2. event_id e2 = uuid rt2 \<and> created_at e2 = date_now rt2 div 1000 \<and>
            events (fst (snd (onRequestPost P rt2 request2 db1))) = events db @ [e1, e2])"
proof -
  let ?ip = "getClientIP request1"
  let ?t1 = "date_now rt1 div 1000" and ?t2 = "date_now rt2 div 1000"
  let ?k1 = "generateIdempotencyKey P ?ip a ?t1" and ?k2 = "generateIdempotencyKey P ?ip a ?t2"
  from reach2 obtain b2 where b2: "req_body request2 = Some b2"
    by (auto elim!: reaches_limiterD)
  from first show ?thesis
  proof (rule onRequestPost_201_state)
    fix b a'
    assume 1: "reaches_limiter P request1 a'"
      "events db1 = events db @ [new_event rt1 request1 b a']"
      "idempotency_keys db1 (generateIdempotencyKey P ?ip a' ?t1) = Some ?t1"
      "\<And>k. k \<noteq> generateIdempotencyKey P ?ip a' ?t1 \<Longrightarrow>
         idempotency_keys db1 k =
           (case idempotency_keys db k of
              None \<Rightarrow> None
            | Some c \<Rightarrow> if c < ?t1 - 3600 then None else Some c)"
    from 1(1) reach1 have a': "a' = a"
      by (auto elim!: reaches_limiterD)
    have fresh: "fresh_key db1 ?k2 ?t2"
    proof (cases "?k2 = ?k1")
      case True
      with later 1(3) a' show ?thesis by (simp add: fresh_key_def)
    next
      case False
      from 1(4) [of ?k2] False a' before show ?thesis
        by (auto simp: fresh_key_def split: option.splits if_splits)
    qed
    note c = onRequestPost_created [OF reach2 ok(1) ok(2) fresh [folded ip] new_id b2]
    show ?thesis
      unfolding c using 1(2) later_window [OF later] by (simp add: new_event_def)
  qed
qed

lemma serve_all_three:
  assumes "onRequestPost P rt1 r1 db = (o1, db1, s1)"
    and "onRequestPost P rt2 r2 db1 = (o2, db2, s2)"
    and "onRequestPost P rt3 r3 db2 = (o3, db3, s3)"
  shows "serve_all P [(rt1, r1), (rt2, r2), (rt3, r3)] db = ([o1, o2, o3], db3)"
  using assms by simp

lemma step3:
  "onRequestPost P0 (rt_at 1010 ''u3'') (post_from ''A'' tap32) (counted dbS1 ''A'' 1002) =
     (created_response ''u3'' 32 1010,
      (recorded (counted (counted dbS1 ''A'' 1002) ''A'' 1010) ''idempotency:10dcca80'' 1010)
        \<lparr>events := [tap_event ''A'' ''u1'' 1000, tap_event ''A'' ''u3'' 1010]\<rparr>,
      Some (tap_event ''A'' ''u3'' 1010))"
proof -
  have "onRequestPost P0 (rt_at 1010 ''u3'') (post_from ''A'' tap32) (counted dbS1 ''A'' 1002) =
     (created_response ''u3'' 32 1010,
      (recorded (counted (counted dbS1 ''A'' 1002) ''A'' 1010)
          (generateIdempotencyKey P0 ''A'' 32 1010) 1010)
        \<lparr>events := events (counted dbS1 ''A'' 1002) @ [tap_event ''A'' ''u3'' 1010]\<rparr>,
      Some (tap_event ''A'' ''u3'' 1010))"
    by (rule tap_created)
       (simp_all add: key_A_32_1010 eval_defs dbS1_def tap_event_def new_event_def)
  then show ?thesis
    by (simp add: key_A_32_1010 dbS1_def)
qed

theorem later_request_admitted_witness:
  "reaches_limiter P0 (post_from ''A'' tap32) 32 \<and>
   (1000 :: int) + IDEMPOTENCY_WINDOW \<le> 1010 \<and>
   fresh_key db0 (generateIdempotencyKey P0 ''A'' 32 1010) 1010 \<and>
   allowed dbS1 ''A'' 1010 \<and> ''u3'' \<notin> event_id ` set (events dbS1) \<and>
   fst (serve_all P0 [(rt_at 1000 ''u1'', post_from ''A'' tap32),
                      (rt_at 1010 ''u3'', post_from ''A'' tap32)] db0)
     = [created_response ''u1'' 32 1000, created_response ''u3'' 32 1010] \<and>
   fst (serve_all P0 [(rt_at 1000 ''u1'', post_from ''A'' tap32),
                      (rt_at 1002 ''u2'', post_from ''A'' tap32),
                      (rt_at 1010 ''u3'', post_from ''A'' tap32)] db0)
     = [created_response ''u1'' 32 1000, error_response 409 ''Duplicate request'',
        created_response ''u3'' 32 1010] \<and>
   map event_id (events (snd (serve_all P0 [(rt_at 1000 ''u1'', post_from ''A'' tap32),
                      (rt_at 1002 ''u2'', post_from ''A'' tap32),
                      (rt_at 1010 ''u3'', post_from ''A'' tap32)] db0))) = [''u1'', ''u3'']"
proof -
  have s1: "onRequestPost P0 (rt_at 1000 ''u1'') (post_from ''A'' tap32) db0 =
     (Response 201 (JObj [(''success'', JBool True), (''id'', JStr ''u1''),
        (''amount_oz'', JNum (Fin 32)), (''created_at'', JNum (Fin 1000))]),
      dbS1, Some (tap_event ''A'' ''u1'' 1000))"
    using step1 by (simp add: created_response_def)
  have later: "(1000 :: int) + IDEMPOTENCY_WINDOW \<le> 1010"
    by (simp add: IDEMPOTENCY_WINDOW_def)
  have before: "fresh_key db0 (generateIdempotencyKey P0 ''A'' 32 1010) 1010"
    by (simp add: eval_defs)
  have ok: "allowed dbS1 ''A'' 1010" "''u3'' \<notin> event_id ` set (events dbS1)"
    by (simp_all add: eval_defs dbS1_def tap_event_def new_event_def)
  have t: "fst (onRequestPost P0 (rt_at 1010 ''u3'') (post_from ''A'' tap32) dbS1)
      = created_response ''u3'' 32 1010"
    using later_request_admitted [OF s1 tap32_reaches tap32_reaches refl,
        where ?rt2.0 = "rt_at 1010 ''u3''"] later before ok
    by (simp add: post_from_ip)
  have two: "fst (serve_all P0 [(rt_at 1000 ''u1'', post_from ''A'' tap32),
                      (rt_at 1010 ''u3'', post_from ''A'' tap32)] db0)
     = [created_response ''u1'' 32 1000, created_response ''u3'' 32 1010]"
  proof -
    obtain d s where "onRequestPost P0 (rt_at 1010 ''u3'') (post_from ''A'' tap32) dbS1
        = (created_response ''u3'' 32 1010, d, s)"
      using t by (cases "onRequestPost P0 (rt_at 1010 ''u3'') (post_from ''A'' tap32) dbS1") auto
    from serve_all_two [OF step1 this] show ?thesis by simp
  qed
  from two later before ok tap32_reaches [of "''A''"] show ?thesis
    unfolding serve_all_three [OF step1 step2 step3]
    by (simp add: tap_event_def new_event_def)
qed

lemma key_colliding_1009:
  "generateIdempotencyKey P colliding_address 32 1009 = ''idempotency:d''"
  unfolding generateIdempotencyKey_def Let_def IDEMPOTENCY_WINDOW_def colliding_address_def
  by (simp add: number_to_string_def int_to_string_def toInt32_def digits.simps digit_char_def)

lemma key_colliding_1010:
  "generateIdempotencyKey P colliding_address 32 1010 = ''idempotency:d''"
  unfolding generateIdempotencyKey_def Let_def IDEMPOTENCY_WINDOW_def colliding_address_def
  by (simp add: number_to_string_def int_to_string_def toInt32_def digits.simps digit_char_def)

text \<open>
  Within the horizon a later window alone does not separate two requests: for the address
  \<open>2001:db8::2661:ef4e\<close> and the amount 32 at the times 1009 (window 1005) and 1010 (window
  1010, the next one, 1 after the first request) the digests are \<open>-13\<close> and \<open>13\<close>, both keys are
  \<open>idempotency:d\<close>, and the second request is answered with 409.
\<close>

lemma adjacent_window_collision:
  "(1010 :: int) div IDEMPOTENCY_WINDOW = 1009 div IDEMPOTENCY_WINDOW + 1 \<and>
   fst (serve_all P0 [(rt_at 1009 ''u1'', post_from colliding_address tap32),
                      (rt_at 1010 ''u2'', post_from colliding_address tap32)] db0)
     = [created_response ''u1'' 32 1009, error_response 409 ''Duplicate request''] \<and>
   map event_id (events (snd (serve_all P0 [(rt_at 1009 ''u1'', post_from colliding_address tap32),
                      (rt_at 1010 ''u2'', post_from colliding_address tap32)] db0))) = [''u1'']"
proof -
  let ?ip = colliding_address
  let ?d1 = "(recorded (counted db0 ?ip 1009) (generateIdempotencyKey P0 ?ip 32 1009) 1009)
        \<lparr>events := events db0 @ [tap_event ?ip ''u1'' 1009]\<rparr>"
  have ne: "?ip \<noteq> []" by (simp add: colliding_address_def)
  have 1: "onRequestPost P0 (rt_at 1009 ''u1'') (post_from ?ip tap32) db0 =
     (created_response ''u1'' 32 1009, ?d1, Some (tap_event ?ip ''u1'' 1009))"
    by (rule tap_created) (simp_all add: ne key_colliding_1009 eval_defs)
  have 2: "onRequestPost P0 (rt_at 1010 ''u2'') (post_from ?ip tap32) ?d1 =
     (error_response 409 ''Duplicate request'', counted ?d1 ?ip 1010, None)"
    by (rule tap_duplicate)
       (simp_all add: ne key_colliding_1009 key_colliding_1010 eval_defs)
  show ?thesis
    unfolding serve_all_two [OF 1 2]
    by (simp add: IDEMPOTENCY_WINDOW_def db0_def tap_event_def new_event_def)
qed

lemma insert_event_rate_limits:
  "insert_event F db e = Some db' \<Longrightarrow> rate_limits db' = rate_limits db"
  by (auto simp: insert_event_def split: if_splits)

lemma onRequestPost_counted:
  assumes "reaches_limiter P request a" and "faults rt \<inter> rate_stmts = {}"
    and "allowed db (getClientIP request) (date_now rt div 1000)"
  shows "rate_limits (fst (snd (onRequestPost P rt request db)))
           = rate_limits (counted db (getClientIP request) (date_now rt div 1000))"
proof -
  let ?ip = "getClientIP request" and ?now = "date_now rt div 1000"
  from assms(1) obtain b where b: "isSameOrigin P request (url_origin P (req_url request))"
    "req_body request = Some b" "b \<noteq> JNull" "amount_of b = JNum (Fin a)" "0 \<le> a" "a \<le> 10000"
    by (rule reaches_limiterD)
  note r = checkRateLimit_counted [OF assms(2,3)]
  obtain r2 db2 where i: "checkIdempotency (faults rt) (counted db ?ip ?now)
      (generateIdempotencyKey P ?ip a ?now) ?now = (r2, db2)"
    by (cases "checkIdempotency (faults rt) (counted db ?ip ?now)
      (generateIdempotencyKey P ?ip a ?now) ?now")
  have f: "rate_limits db2 = rate_limits (counted db ?ip ?now)"
    using checkIdempotency_frame [of "faults rt" "counted db ?ip ?now"
        "generateIdempotencyKey P ?ip a ?now" ?now] i by simp
  show ?thesis
    unfolding onRequestPost_checked [OF b] r
    using i f
    by (auto split: sum.splits bool.splits option.splits dest: insert_event_rate_limits)
qed

lemma window_not_expired: "window_start now = w \<Longrightarrow> \<not> w < now - 3600"
  using window_start_bounds [of now] by linarith

lemma serve_all_counts:
  assumes "\<forall>x \<in> set rs. limited_request P ip w x"
    and "request_count db ip w = n" and "rate_limits db (ip, w) \<noteq> Some 0"
    and "0 \<le> n" and "n + int (length rs) \<le> RATE_LIMIT_MAX_REQUESTS"
  shows "request_count (snd (serve_all P rs db)) ip w = n + int (length rs) \<and>
         rate_limits (snd (serve_all P rs db)) (ip, w) \<noteq> Some 0 \<and>
         (\<forall>ip'. ip' \<noteq> ip \<longrightarrow>
            rate_limits (snd (serve_all P rs db)) (ip', w) = rate_limits db (ip', w))"
  using assms
proof (induction rs arbitrary: db n)
  case Nil
  then show ?case by simp
next
  case (Cons x rs)
  obtain rt rq where x: "x = (rt, rq)" by (cases x)
  let ?now = "date_now rt div 1000"
  obtain out db1 sp where s: "onRequestPost P rt rq db = (out, db1, sp)"
    by (cases "onRequestPost P rt rq db")
  from Cons.prems(1) x obtain a where l: "reaches_limiter P rq a" "getClientIP rq = ip"
    "window_start ?now = w" "faults rt \<inter> rate_stmts = {}"
    by (auto simp: limited_request_def)
  have al: "allowed db (getClientIP rq) ?now"
    using Cons.prems(2-5) l(2,3) by (simp add: allowed_def)
  have rl: "rate_limits db1 = rate_limits (counted db ip ?now)"
    using onRequestPost_counted [OF l(1) l(4) al] s l(2) by simp
  have c1: "rate_limits db1 (ip, w) = Some (n + 1)"
    using rl l(3) Cons.prems(2) counted_simps(3) [of db ip ?now] by simp
  have other: "rate_limits db1 (ip', w) = rate_limits db (ip', w)" if "ip' \<noteq> ip" for ip'
    using rl that l(3) window_not_expired [OF l(3)] counted_other [of "(ip', w)" ip ?now db]
    by simp
  have ih: "request_count (snd (serve_all P rs db1)) ip w = (n + 1) + int (length rs) \<and>
         rate_limits (snd (serve_all P rs db1)) (ip, w) \<noteq> Some 0 \<and>
         (\<forall>ip'. ip' \<noteq> ip \<longrightarrow>
            rate_limits (snd (serve_all P rs db1)) (ip', w) = rate_limits db1 (ip', w))"
    using Cons.prems(1,4,5) c1
    by (intro Cons.IH) (auto simp: request_count_def)
  show ?case
    using ih other s x by (auto split: prod.splits)
qed

text \<open>
  Claim C3. The limiter reads the counter of the address for the window \<open>now\<close> falls into
  (\<open>now\<close> truncated to a multiple of 60). At 10 or above it returns false and the database
  is unchanged. Below 10 it returns true and the counter is one higher, 1 when there was
  none (provided its statements succeed; a row holding 0 is never written). Consequently,
  after ten requests of one address in one window that got as far as the limiter, starting
  without a counter, a further such request of that address is answered with 429 and
  changes nothing, while a request of another address in the same window is still
  admitted by the limiter and is answered with 201 when it is no duplicate, no statement
  fails and its id is new.
\<close>

theorem rate_limiter_fixed_window:
  assumes "list_all (limited_request P ip w) rs" and "length rs = 10"
    and "rate_limits db (ip, w) = None"
  shows "(SelectRateLimit \<notin> F \<and> RATE_LIMIT_MAX_REQUESTS \<le> request_count d addr (window_start t)
            \<longrightarrow> checkRateLimit F d addr t = (Inr False, d)) \<and>
         (F \<inter> rate_stmts = {} \<and> request_count d addr (window_start t) < RATE_LIMIT_MAX_REQUESTS \<and>
          rate_limits d (addr, window_start t) \<noteq> Some 0
            \<longrightarrow> fst (checkRateLimit F d addr t) = Inr True \<and>
                rate_limits (snd (checkRateLimit F d addr t)) (addr, window_start t)
                  = Some (request_count d addr (window_start t) + 1) \<and>
                (rate_limits d (addr, window_start t) = None \<longrightarrow>
                   rate_limits (snd (checkRateLimit F d addr t)) (addr, window_start t) = Some 1)) \<and>
         (\<forall>rt request. limited_request P ip w (rt, request) \<longrightarrow>
            onRequestPost P rt request (snd (serve_all P rs db))
              = (error_response 429 ''Rate limit exceeded'', snd (serve_all P rs db), None)) \<and>
         (\<forall>rt request a.
            reaches_limiter P request a \<and> getClientIP request \<noteq> ip \<and>
            window_start (date_now rt div 1000) = w \<and> faults rt = {} \<and>
            allowed db (getClientIP request) (date_now rt div 1000) \<and>
            fresh_key (snd (serve_all P rs db))
              (generateIdempotencyKey P (getClientIP request) a (date_now rt div 1000))
              (date_now rt div 1000) \<and>
            uuid rt \<notin> event_id ` set (events (snd (serve_all P rs db)))
            \<longrightarrow> fst (onRequestPost P rt request (snd (serve_all P rs db)))
                  = created_response (uuid rt) a (date_now rt div 1000))"
proof (intro conjI allI impI)
  let ?db' = "snd (serve_all P rs db)"
  have all: "\<forall>x \<in> set rs. limited_request P ip w x"
    using assms(1) by (simp add: list_all_iff)
  have counts: "request_count ?db' ip w = 10 \<and> rate_limits ?db' (ip, w) \<noteq> Some 0 \<and>
      (\<forall>ip'. ip' \<noteq> ip \<longrightarrow> rate_limits ?db' (ip', w) = rate_limits db (ip', w))"
    using serve_all_counts [OF all, of db 0] assms(2,3)
    by (simp add: request_count_def RATE_LIMIT_MAX_REQUESTS_def)
  show "checkRateLimit F d addr t = (Inr False, d)"
    if "SelectRateLimit \<notin> F \<and> RATE_LIMIT_MAX_REQUESTS \<le> request_count d addr (window_start t)"
    using that by (simp add: checkRateLimit_deny)
  {
    assume h: "F \<inter> rate_stmts = {} \<and> request_count d addr (window_start t) < RATE_LIMIT_MAX_REQUESTS \<and>
          rate_limits d (addr, window_start t) \<noteq> Some 0"
    then have c: "checkRateLimit F d addr t = (Inr True, counted d addr t)"
      by (intro checkRateLimit_counted) (simp_all add: allowed_def)
    show "fst (checkRateLimit F d addr t) = Inr True"
      using c by simp
    show "rate_limits (snd (checkRateLimit F d addr t)) (addr, window_start t)
                  = Some (request_count d addr (window_start t) + 1)"
      using c by simp
    show "rate_limits (snd (checkRateLimit F d addr t)) (addr, window_start t) = Some 1"
      if "rate_limits d (addr, window_start t) = None"
      using c that by (simp add: request_count_def)
  }
  show "onRequestPost P rt request ?db' = (error_response 429 ''Rate limit exceeded'', ?db', None)"
    if "limited_request P ip w (rt, request)" for rt request
  proof -
    from that obtain a where l: "reaches_limiter P request a" "getClientIP request = ip"
      "window_start (date_now rt div 1000) = w" "faults rt \<inter> rate_stmts = {}"
      by (auto simp: limited_request_def)
    from l(4) have "SelectRateLimit \<notin> faults rt"
      by (auto simp: rate_stmts_def)
    then show ?thesis
      using counts l by (intro onRequestPost_rate_limited [OF l(1)])
        (simp_all add: RATE_LIMIT_MAX_REQUESTS_def)
  qed
  show "fst (onRequestPost P rt request ?db') = created_response (uuid rt) a (date_now rt div 1000)"
    if h: "reaches_limiter P request a \<and> getClientIP request \<noteq> ip \<and>
            window_start (date_now rt div 1000) = w \<and> faults rt = {} \<and>
            allowed db (getClientIP request) (date_now rt div 1000) \<and>
            fresh_key ?db'
              (generateIdempotencyKey P (getClientIP request) a (date_now rt div 1000))
              (date_now rt div 1000) \<and>
            uuid rt \<notin> event_id ` set (events ?db')" for rt request a
  proof -
    from h obtain b where b: "req_body request = Some b"
      by (auto elim!: reaches_limiterD)
    have al: "allowed ?db' (getClientIP request) (date_now rt div 1000)"
      using h counts by (auto simp: allowed_def request_count_def)
    from h have h1: "reaches_limiter P request a" and h4: "faults rt = {}"
      and h6: "fresh_key ?db'
              (generateIdempotencyKey P (getClientIP request) a (date_now rt div 1000))
              (date_now rt div 1000)"
      and h7: "uuid rt \<notin> event_id ` set (events ?db')"
      by simp_all
    show ?thesis
      unfolding onRequestPost_created [OF h1 h4 al h6 h7 b] by simp
  qed
qed

lemma key_B_32_1001: "generateIdempotencyKey P ''B'' 32 1001 = ''idempotency:5adec69e''"
  unfolding generateIdempotencyKey_def Let_def IDEMPOTENCY_WINDOW_def
  by (simp add: number_to_string_def int_to_string_def toInt32_def digits.simps digit_char_def)

lemma window_start_1000 [simp]: "window_start 1000 = 960" "window_start 1001 = 960"
  by (simp_all add: window_start_def RATE_LIMIT_WINDOW_def)

lemma repeated_frame:
  "events (repeated n d) = events d \<and> idempotency_keys (repeated n d) = idempotency_keys d"
  by (induction n arbitrary: d) simp_all

lemma run_repeats:
  assumes "rate_limits d (''A'', 960) = Some c" and "1 \<le> c" and "c + int n \<le> 10"
    and "idempotency_keys d ''idempotency:10dcca61'' = Some 1000"
  shows "serve_all P0 (replicate n (rt_at 1000 u, post_from ''A'' tap32)) d =
     (replicate n (error_response 409 ''Duplicate request''), repeated n d)"
  using assms
proof (induction n arbitrary: d c)
  case 0
  then show ?case by simp
next
  case (Suc n)
  have s: "onRequestPost P0 (rt_at 1000 u) (post_from ''A'' tap32) d =
     (error_response 409 ''Duplicate request'', counted d ''A'' 1000, None)"
    using Suc.prems
    by (intro tap_duplicate)
       (simp_all add: key_A_32_1000 allowed_def fresh_key_def request_count_def
          RATE_LIMIT_MAX_REQUESTS_def IDEMPOTENCY_WINDOW_def)
  have c: "rate_limits (counted d ''A'' 1000) (''A'', 960) = Some (c + 1)"
    using counted_simps(3) [of d "''A''" 1000] Suc.prems(1) by (simp add: request_count_def)
  have "serve_all P0 (replicate n (rt_at 1000 u, post_from ''A'' tap32)) (counted d ''A'' 1000) =
     (replicate n (error_response 409 ''Duplicate request''), repeated n (counted d ''A'' 1000))"
    using Suc.prems by (intro Suc.IH [OF c]) simp_all
  with s show ?case by simp
qed

lemma run_ten:
  "serve_all P0 (replicate 10 (rt_at 1000 ''u1'', post_from ''A'' tap32)) db0 =
     (created_response ''u1'' 32 1000 # replicate 9 (error_response 409 ''Duplicate request''),
      repeated 9 dbS1)"
proof -
  have r: "replicate 10 x = x # replicate 9 x" for x :: "runtime \<times> request"
    by (simp add: eval_nat_numeral)
  have "serve_all P0 (replicate 9 (rt_at 1000 ''u1'', post_from ''A'' tap32)) dbS1 =
     (replicate 9 (error_response 409 ''Duplicate request''), repeated 9 dbS1)"
    by (rule run_repeats [where c = 1]) (simp_all add: dbS1_def eval_defs)
  with step1 show ?thesis
    unfolding r by simp
qed

theorem rate_limiter_fixed_window_witness:
  "list_all (limited_request P0 ''A'' 960) (replicate 10 (rt_at 1000 ''u1'', post_from ''A'' tap32)) \<and>
   length (replicate 10 (rt_at 1000 ''u1'', post_from ''A'' tap32)) = 10 \<and>
   rate_limits db0 (''A'', 960) = None \<and>
   fst (serve_all P0 (replicate 10 (rt_at 1000 ''u1'', post_from ''A'' tap32)) db0)
     = created_response ''u1'' 32 1000 # replicate 9 (error_response 409 ''Duplicate request'') \<and>
   limited_request P0 ''A'' 960 (rt_at 1001 ''u11'', post_from ''A'' tap32) \<and>
   fst (onRequestPost P0 (rt_at 1001 ''u11'') (post_from ''A'' tap32)
         (snd (serve_all P0 (replicate 10 (rt_at 1000 ''u1'', post_from ''A'' tap32)) db0)))
     = error_response 429 ''Rate limit exceeded'' \<and>
   fst (onRequestPost P0 (rt_at 1001 ''u12'') (post_from ''B'' tap32)
         (snd (serve_all P0 (replicate 10 (rt_at 1000 ''u1'', post_from ''A'' tap32)) db0)))
     = created_response ''u12'' 32 1001"
proof -
  let ?rs = "replicate 10 (rt_at 1000 ''u1'', post_from ''A'' tap32)"
  have lim: "limited_request P0 ''A'' 960 (rt_at t u, post_from ''A'' tap32)"
    if "window_start t = 960" for t u
    using that tap32_reaches [of "''A''"]
    by (auto simp: limited_request_def post_from_ip)
  have 1: "list_all (limited_request P0 ''A'' 960) ?rs"
    by (simp add: list_all_iff lim)
  have 2: "length ?rs = 10" by simp
  have 3: "rate_limits db0 (''A'', 960) = None" by (simp add: db0_def)
  note t = rate_limiter_fixed_window [OF 1 2 3, where F = "{}" and d = db0 and addr = "''A''" and t = 1000]
  have db': "snd (serve_all P0 ?rs db0) = repeated 9 dbS1"
    by (simp add: run_ten)
  have a: "fst (onRequestPost P0 (rt_at 1001 ''u11'') (post_from ''A'' tap32) (snd (serve_all P0 ?rs db0)))
      = error_response 429 ''Rate limit exceeded''"
    using t lim [of 1001 "''u11''"] by simp
  have fresh: "fresh_key (snd (serve_all P0 ?rs db0))
      (generateIdempotencyKey P0 (getClientIP (post_from ''B'' tap32)) 32
         (date_now (rt_at 1001 ''u12'') div 1000))
      (date_now (rt_at 1001 ''u12'') div 1000)"
    unfolding db' using repeated_frame [of 9 dbS1]
    by (simp add: post_from_ip key_B_32_1001 fresh_key_def dbS1_def recorded_def counted_def db0_def)
  have new: "uuid (rt_at 1001 ''u12'') \<notin> event_id ` set (events (snd (serve_all P0 ?rs db0)))"
    unfolding db' using repeated_frame [of 9 dbS1]
    by (simp add: dbS1_def tap_event_def new_event_def)
  have al: "allowed db0 (getClientIP (post_from ''B'' tap32)) (date_now (rt_at 1001 ''u12'') div 1000)"
    by (simp add: post_from_ip allowed_def request_count_def db0_def RATE_LIMIT_MAX_REQUESTS_def)
  have b: "fst (onRequestPost P0 (rt_at 1001 ''u12'') (post_from ''B'' tap32) (snd (serve_all P0 ?rs db0)))
      = created_response ''u12'' 32 1001"
    using t tap32_reaches [of "''B''"] fresh new al
    by (simp add: post_from_ip)
  from 1 2 3 a b lim [of 1001 "''u11''"] run_ten show ?thesis by simp
qed

lemma sync_failed_simps [simp]:
  "settled (sync_failed w logs) = Inr ()"
  "written (sync_failed w logs) = w"
  "last (console (sync_failed w logs)) = ''Failed to append event to Gitea:''"
  by (simp_all add: sync_failed_def)

lemma putFileContent_cases:
  obtains (failed) e request logs where
      "putFileContent P net config filepath content sha = (Inl e, request, logs)"
      "\<not> (\<exists>s. fetch_put net request = PutStatus s \<and> response_ok s)"
  | (accepted) request s where
      "putFileContent P net config filepath content sha = (Inr (), request, [])"
      "fetch_put net request = PutStatus s" "response_ok s"
      "request = \<lparr>put_method = (if present sha then ''PUT'' else ''POST''),
             put_url = contents_url config filepath, put_token = token config,
             put_content = base64Content P content,
             put_sha = (if present sha then sha else None)\<rparr>"
proof -
  let ?request = "\<lparr>put_method = (if present sha then ''PUT'' else ''POST''),
             put_url = contents_url config filepath, put_token = token config,
             put_content = base64Content P content,
             put_sha = (if present sha then sha else None)\<rparr>"
  show ?thesis
  proof (cases "fetch_put net ?request")
    case PutFailed
    then show ?thesis
      using failed [of FetchError ?request "[''Error writing file to Gitea:'']"]
      by (simp add: putFileContent_def)
  next
    case (PutStatus s)
    show ?thesis
    proof (cases "response_ok s")
      case True
      then show ?thesis
        using accepted [of ?request s] PutStatus by (simp add: putFileContent_def)
    next
      case False
      then show ?thesis
        using failed [of "ApiError s" ?request "[''Error writing file to Gitea:'']"] PutStatus
        by (simp add: putFileContent_def)
    qed
  qed
qed

lemma appendEventToGitea_cases
  [case_names no_config fetch_failed parse_failed not_array write_failed appended]:
  obtains
    "getGiteaConfig env = None"
    "appendEventToGitea P net event env =
       \<lparr>settled = Inr (), written = None,
        console = [''Gitea config not available, skipping webhook'']\<rparr>"
  | config e logs where "getGiteaConfig env = Some config"
    "getFileContent net config (monthly_path P event) = (Inl e, logs)"
    "appendEventToGitea P net event env = sync_failed None logs"
  | config existingFile logs e where "getGiteaConfig env = Some config"
    "getFileContent net config (monthly_path P event) = (Inr existingFile, logs)"
    "existing_events P existingFile = Inl e"
    "appendEventToGitea P net event env = sync_failed None logs"
  | config existingFile logs events0 sha e where "getGiteaConfig env = Some config"
    "getFileContent net config (monthly_path P event) = (Inr existingFile, logs)"
    "existing_events P existingFile = Inr (events0, sha)"
    "push events0 (event_json event) = Inl e"
    "appendEventToGitea P net event env = sync_failed None logs"
  | config existingFile logs events0 sha events1 e request logs1 where
    "getGiteaConfig env = Some config"
    "getFileContent net config (monthly_path P event) = (Inr existingFile, logs)"
    "existing_events P existingFile = Inr (events0, sha)"
    "push events0 (event_json event) = Inr events1"
    "putFileContent P net config (monthly_path P event) (json_stringify P events1) sha
       = (Inl e, request, logs1)"
    "\<not> (\<exists>s. fetch_put net request = PutStatus s \<and> response_ok s)"
    "appendEventToGitea P net event env = sync_failed (Some request) (logs @ logs1)"
  | config existingFile logs events0 sha events1 request s where
    "getGiteaConfig env = Some config"
    "getFileContent net config (monthly_path P event) = (Inr existingFile, logs)"
    "existing_events P existingFile = Inr (events0, sha)"
    "push events0 (event_json event) = Inr events1"
    "request = \<lparr>put_method = (if present sha then ''PUT'' else ''POST''),
             put_url = contents_url config (monthly_path P event), put_token = token config,
             put_content = base64Content P (json_stringify P events1),
             put_sha = (if present sha then sha else None)\<rparr>"
    "fetch_put net request = PutStatus s" "response_ok s"
    "appendEventToGitea P net event env =
       \<lparr>settled = Inr (), written = Some request,
        console = logs @ [''Successfully appended event '' @ event_id event
                            @ '' to '' @ monthly_path P event]\<rparr>"
proof (cases "getGiteaConfig env")
  case None
  then show ?thesis using that(1) by (simp add: appendEventToGitea_def Let_def)
next
  case (Some config)
  let ?path = "monthly_path P event"
  obtain r logs where g: "getFileContent net config ?path = (r, logs)"
    by (cases "getFileContent net config ?path")
  show ?thesis
  proof (cases r)
    case (Inl e)
    then show ?thesis using that(2) [OF Some] g Some by (simp add: appendEventToGitea_def Let_def)
  next
    case (Inr existingFile)
    note g = g [unfolded Inr]
    show ?thesis
    proof (cases "existing_events P existingFile")
      case (Inl e)
      then show ?thesis using that(3) [OF Some g] g Some by (simp add: appendEventToGitea_def Let_def)
    next
      case (Inr p)
      obtain events0 sha where p: "p = (events0, sha)" by (cases p)
      note ex = Inr [unfolded p]
      show ?thesis
      proof (cases "push events0 (event_json event)")
        case (Inl e)
        then show ?thesis using that(4) [OF Some g ex] g ex Some
          by (simp add: appendEventToGitea_def Let_def)
      next
        case (Inr events1)
        show ?thesis
        proof (rule putFileContent_cases [where P = P and net = net and config = config
              and filepath = ?path and content = "json_stringify P events1" and sha = sha])
          fix e request logs1
          assume "putFileContent P net config ?path (json_stringify P events1) sha
              = (Inl e, request, logs1)"
            "\<not> (\<exists>s. fetch_put net request = PutStatus s \<and> response_ok s)"
          then show ?thesis using that(5) [OF Some g ex Inr] g ex Inr Some
            by (simp add: appendEventToGitea_def Let_def)
        next
          fix request s
          assume "putFileContent P net config ?path (json_stringify P events1) sha
              = (Inr (), request, [])"
            "fetch_put net request = PutStatus s" "response_ok s"
            "request = \<lparr>put_method = (if present sha then ''PUT'' else ''POST''),
               put_url = contents_url config ?path, put_token = token config,
               put_content = base64Content P (json_stringify P events1),
               put_sha = (if present sha then sha else None)\<rparr>"
          then show ?thesis using that(6) [OF Some g ex Inr] g ex Inr Some
            by (simp add: appendEventToGitea_def Let_def)
        qed
      qed
    qed
  qed
qed

lemma appendEventToGitea_settled:
  "settled (appendEventToGitea P net event env) = Inr ()"
  by (cases P net event env rule: appendEventToGitea_cases) simp_all

lemma appendEventToGitea_failure_logged:
  assumes "getGiteaConfig env \<noteq> None"
    and "\<not> write_accepted net (appendEventToGitea P net event env)"
  shows "last (console (appendEventToGitea P net event env)) = ''Failed to append event to Gitea:''"
  using assms
  by (cases P net event env rule: appendEventToGitea_cases)
     (simp_all add: write_accepted_def)

lemma appendEventToGitea_unreachable:
  assumes "getGiteaConfig env = Some config"
    and "fetch_get net (contents_url config (monthly_path P event)) (token config) = GetFailed"
  shows "appendEventToGitea P net event env =
     \<lparr>settled = Inr (), written = None,
      console = [''Error fetching file from Gitea:'', ''Failed to append event to Gitea:'']\<rparr>"
  using assms
  by (simp add: appendEventToGitea_def getFileContent_def sync_failed_def)

text \<open>
  Claim C7. \<^verbatim>\<open>appendEventToGitea\<close> never rejects: whatever the event, the configuration and
  the archive's answers, it settles normally. When it is configured and its write was
  not accepted (the archive was unreachable, the fetch or the parse failed, the write was
  refused), its last console line reports the failure; with the archive unreachable it
  logs the fetch error and the failure and writes nothing. The handler does not wait for
  it: a request whose insert succeeded is answered with 201 and its event is in the
  \<open>events\<close> table, whichever archive the call runs against.
\<close>

theorem archive_sync_never_throws:
  "settled (appendEventToGitea P net event env) = Inr () \<and>
   (getGiteaConfig env \<noteq> None \<and> \<not> write_accepted net (appendEventToGitea P net event env)
      \<longrightarrow> last (console (appendEventToGitea P net event env))
            = ''Failed to append event to Gitea:'') \<and>
   (\<forall>config. getGiteaConfig env = Some config \<and>
      fetch_get net (contents_url config (monthly_path P event)) (token config) = GetFailed
      \<longrightarrow> appendEventToGitea P net event env =
            \<lparr>settled = Inr (), written = None,
             console = [''Error fetching file from Gitea:'',
                        ''Failed to append event to Gitea:'']\<rparr>) \<and>
   (reaches_limiter P request a \<and> req_body request = Some b \<and>
    checkRateLimit (faults rt) db (getClientIP request) (date_now rt div 1000) = (Inr True, db1) \<and>
    checkIdempotency (faults rt) db1
      (generateIdempotencyKey P (getClientIP request) a (date_now rt div 1000))
      (date_now rt div 1000) = (Inr True, db2) \<and>
    insert_event (faults rt) db2 (new_event rt request b a) = Some db3
      \<longrightarrow> serve P net env rt request db =
            (created_response (uuid rt) a (date_now rt div 1000), db3,
             Some (appendEventToGitea P net (new_event rt request b a) env)) \<and>
          new_event rt request b a \<in> set (events db3) \<and>
          settled (appendEventToGitea P net (new_event rt request b a) env) = Inr ())"
proof (intro conjI allI impI)
  show "settled (appendEventToGitea P net event env) = Inr ()"
    by (rule appendEventToGitea_settled)
  show "last (console (appendEventToGitea P net event env)) = ''Failed to append event to Gitea:''"
    if "getGiteaConfig env \<noteq> None \<and> \<not> write_accepted net (appendEventToGitea P net event env)"
    using that by (simp add: appendEventToGitea_failure_logged)
  show "appendEventToGitea P net event env =
            \<lparr>settled = Inr (), written = None,
             console = [''Error fetching file from Gitea:'',
                        ''Failed to append event to Gitea:'']\<rparr>"
    if "getGiteaConfig env = Some config \<and>
      fetch_get net (contents_url config (monthly_path P event)) (token config) = GetFailed"
    for config
    using that by (simp add: appendEventToGitea_unreachable)
  assume h: "reaches_limiter P request a \<and> req_body request = Some b \<and>
    checkRateLimit (faults rt) db (getClientIP request) (date_now rt div 1000) = (Inr True, db1) \<and>
    checkIdempotency (faults rt) db1
      (generateIdempotencyKey P (getClientIP request) a (date_now rt div 1000))
      (date_now rt div 1000) = (Inr True, db2) \<and>
    insert_event (faults rt) db2 (new_event rt request b a) = Some db3"
  then have b: "isSameOrigin P request (url_origin P (req_url request))"
    "req_body request = Some b" "b \<noteq> JNull" "amount_of b = JNum (Fin a)" "0 \<le> a" "a \<le> 10000"
    by (auto elim!: reaches_limiterD)
  show "serve P net env rt request db =
            (created_response (uuid rt) a (date_now rt div 1000), db3,
             Some (appendEventToGitea P net (new_event rt request b a) env))"
    using h by (simp add: serve_def onRequestPost_checked [OF b])
  show "new_event rt request b a \<in> set (events db3)"
    using h by (auto simp: insert_event_def split: if_splits)
  show "settled (appendEventToGitea P net (new_event rt request b a) env) = Inr ()"
    by (rule appendEventToGitea_settled)
qed

lemma env0_config:
  "getGiteaConfig env0 = Some \<lparr>url = ''https://git.example'', token = ''secret'',
      owner = ''wintermute'', repo = ''log''\<rparr>"
  by (simp add: getGiteaConfig_def env0_def)

theorem archive_sync_never_throws_witness:
  "getGiteaConfig env0 \<noteq> None \<and>
   \<not> write_accepted unreachable (appendEventToGitea P0 unreachable (tap_event ''A'' ''u1'' 1000) env0) \<and>
   serve P0 unreachable env0 (rt_at 1000 ''u1'') (post_from ''A'' tap32) db0 =
     (created_response ''u1'' 32 1000, dbS1,
      Some \<lparr>settled = Inr (), written = None,
            console = [''Error fetching file from Gitea:'',
                       ''Failed to append event to Gitea:'']\<rparr>) \<and>
   tap_event ''A'' ''u1'' 1000 \<in> set (events dbS1)"
proof -
  let ?e = "tap_event ''A'' ''u1'' 1000"
  note t = archive_sync_never_throws [where P = P0 and net = unreachable and env = env0
      and event = ?e]
  have u: "appendEventToGitea P0 unreachable ?e env0 =
     \<lparr>settled = Inr (), written = None,
      console = [''Error fetching file from Gitea:'', ''Failed to append event to Gitea:'']\<rparr>"
    using t env0_config by (simp add: unreachable_def)
  have s: "serve P0 unreachable env0 (rt_at 1000 ''u1'') (post_from ''A'' tap32) db0 =
     (created_response ''u1'' 32 1000, dbS1, Some (appendEventToGitea P0 unreachable ?e env0))"
    using step1 by (simp add: serve_def)
  show ?thesis
    unfolding s u using env0_config
    by (simp add: write_accepted_def dbS1_def)
qed

subsection \<open>The archive path\<close>

lemma digits_10_length:
  assumes "1000 \<le> n" and "n \<le> 9999"
  shows "length (digits 10 n) = 4"
proof -
  have d: "n div 10 div 10 = n div 100" "n div 10 div 10 div 10 = n div 1000"
    by (simp_all add: div_mult2_eq [symmetric])
  have b: "\<not> n < 10" "\<not> n div 10 < 10" "\<not> n div 10 div 10 < 10" "n div 10 div 10 div 10 < 10"
    unfolding d using assms by linarith+
  have 1: "digits 10 n = digits 10 (n div 10) @ [digit_char (n mod 10)]"
    using b digits.simps [of 10 n] by simp
  have 2: "digits 10 (n div 10) = digits 10 (n div 10 div 10) @ [digit_char (n div 10 mod 10)]"
    using b digits.simps [of 10 "n div 10"] by simp
  have 3: "digits 10 (n div 10 div 10)
      = digits 10 (n div 10 div 10 div 10) @ [digit_char (n div 10 div 10 mod 10)]"
    using b digits.simps [of 10 "n div 10 div 10"] by simp
  have 4: "digits 10 (n div 10 div 10 div 10) = [digit_char (n div 10 div 10 div 10)]"
    using b digits.simps [of 10 "n div 10 div 10 div 10"] by simp
  show ?thesis by (simp add: 1 2 3 4)
qed

lemma padStart2_length:
  assumes "1 \<le> m" and "m \<le> 12"
  shows "length (padStart2 (int_to_string m)) = 2"
proof (cases "m < 10")
  case True
  with assms have "nat m < 10" by linarith
  then have "digits 10 (nat m) = [digit_char (nat m)]"
    using digits.simps [of 10 "nat m"] by simp
  with assms show ?thesis by (simp add: padStart2_def int_to_string_def)
next
  case False
  with assms have c: "\<not> nat m < 10" "nat m div 10 < 10" by linarith+
  have a: "digits 10 (nat m) = digits 10 (nat m div 10) @ [digit_char (nat m mod 10)]"
    using c digits.simps [of 10 "nat m"] by simp
  have b: "digits 10 (nat m div 10) = [digit_char (nat m div 10)]"
    using c digits.simps [of 10 "nat m div 10"] by simp
  from assms show ?thesis by (simp add: a b padStart2_def int_to_string_def)
qed

lemma getMonthlyFilePath_format:
  assumes "1000 \<le> year" and "year \<le> 9999" and "1 \<le> month" and "month \<le> 12"
  shows "\<exists>yyyy mm. length yyyy = 4 \<and> length mm = 2 \<and> yyyy = int_to_string year \<and>
           mm = padStart2 (int_to_string month) \<and>
           getMonthlyFilePath year month = ''events/'' @ yyyy @ ''-'' @ mm @ ''.json''"
  using assms digits_10_length [of "nat year"] padStart2_length [of month]
  by (simp add: getMonthlyFilePath_def int_to_string_def)

lemma monthly_path_granularity:
  assumes "date_getFullYear P (created_at e * 1000) = date_getFullYear P (created_at e' * 1000)"
    and "date_getMonth P (created_at e * 1000) = date_getMonth P (created_at e' * 1000)"
  shows "monthly_path P e = monthly_path P e'"
  using assms by (simp add: monthly_path_def)

lemma utc_1970_01: "utc_year_month 1000000 = (1970, 1)"
  unfolding utc_year_month_def Let_def by simp

lemma path_1970_01: "getMonthlyFilePath 1970 1 = ''events/1970-01.json''"
  unfolding getMonthlyFilePath_def Let_def int_to_string_def padStart2_def
  by (simp add: digits.simps digit_char_def)

lemma monthly_path_1000: "created_at e = 1000 \<Longrightarrow> monthly_path P0 e = ''events/1970-01.json''"
  by (simp add: monthly_path_def P0_def utc_1970_01 path_1970_01)

subsection \<open>What a sync writes\<close>

lemma getFileContent_not_found:
  "fetch_get net (contents_url config filepath) (token config) = GetStatus 404 data \<Longrightarrow>
   getFileContent net config filepath = (Inr None, [])"
  by (simp add: getFileContent_def)

lemma getFileContent_found:
  "fetch_get net (contents_url config filepath) (token config) = GetStatus 200 (Some file) \<Longrightarrow>
   getFileContent net config filepath = (Inr (Some file), [])"
  by (simp add: getFileContent_def response_ok_def)

lemma push_Inr: "push v x = Inr w \<longleftrightarrow> (\<exists>xs. v = JArr xs \<and> w = JArr (xs @ [x]))"
  by (cases v) auto

text \<open>
  An accepted write: the request goes to the path of the event's month, and its content
  is the array that \<^verbatim>\<open>JSON.parse\<close> gave for the fetched file (the empty array when the file
  was not found) with the event appended at the end.
\<close>

lemma accepted_write_appends:
  assumes "getGiteaConfig env = Some config"
    and "write_accepted net (appendEventToGitea P net event env)"
  shows "\<exists>existingFile logs xs sha.
     getFileContent net config (monthly_path P event) = (Inr existingFile, logs) \<and>
     existing_events P existingFile = Inr (JArr xs, sha) \<and>
     (existingFile = None \<longrightarrow> xs = []) \<and>
     written (appendEventToGitea P net event env) =
       Some \<lparr>put_method = (if present sha then ''PUT'' else ''POST''),
             put_url = contents_url config (monthly_path P event), put_token = token config,
             put_content = base64Content P (json_stringify P (JArr (xs @ [event_json event]))),
             put_sha = (if present sha then sha else None)\<rparr>"
proof (cases P net event env rule: appendEventToGitea_cases)
  case (appended config' existingFile logs events0 sha events1 request s)
  from appended(4) obtain xs where xs: "events0 = JArr xs" "events1 = JArr (xs @ [event_json event])"
    unfolding push_Inr by blast
  have "existingFile = None \<longrightarrow> xs = []"
    using appended(3) xs by (auto simp: existing_events_def)
  with appended assms(1) xs show ?thesis by auto
qed (use assms in \<open>auto simp: write_accepted_def split: put_response.splits\<close>)

subsection \<open>Reading back what was written\<close>

lemma utf8_unit_length: "1 \<le> length (utf8_unit c)"
  by (simp add: utf8_unit_def)

lemma utf8_encode_length: "length s \<le> length (utf8_encode s)"
proof (induction s)
  case Nil
  then show ?case by (simp add: utf8_encode_def)
next
  case (Cons c s)
  then show ?case
    using utf8_unit_length [of c] by (simp add: utf8_encode_def)
qed

lemma utf8_encode_ascii:
  "\<forall>c \<in> set s. of_char c < (128 :: nat) \<Longrightarrow> utf8_encode s = s"
  by (induction s) (simp_all add: utf8_encode_def utf8_unit_def)

lemma utf8_encode_longer:
  assumes "\<exists>c \<in> set s. (128 :: nat) \<le> of_char c"
  shows "length s < length (utf8_encode s)"
  using assms
proof (induction s)
  case Nil
  then show ?case by simp
next
  case (Cons c s)
  show ?case
  proof (cases "(128 :: nat) \<le> of_char c")
    case True
    then show ?thesis
      using utf8_encode_length [of s] by (simp add: utf8_encode_def utf8_unit_def)
  next
    case False
    with Cons show ?thesis by (simp add: utf8_encode_def utf8_unit_def)
  qed
qed

text \<open>
  A file written with \<^verbatim>\<open>btoa(unescape(encodeURIComponent(text)))\<close> is read back with
  \<^verbatim>\<open>atob\<close> alone: \<^verbatim>\<open>JSON.parse\<close> is handed the UTF-8 bytes of the text, which is the text
  itself only when every code unit is below 128.
\<close>

lemma decoded_text_of_written:
  assumes "atob P (btoa P (utf8_encode text)) = Some (utf8_encode text)"
  shows "decoded_text P \<lparr>file_content = base64Content P text, file_encoding = ''base64'',
           file_sha = sha\<rparr> = Some (utf8_encode text)"
  using assms by (simp add: decoded_text_def base64Content_def)

text \<open>
  Claim C8, the written document. The path is \<^verbatim>\<open>events/<YYYY>-<MM>.json\<close> from the year and
  the month of the event's timestamp (\<open>getMonthlyFilePath_format\<close>,
  \<open>monthly_path_granularity\<close>), a fetch answered with 404 gives the empty array
  (\<open>getFileContent_not_found\<close>), and an accepted write holds the array that \<^verbatim>\<open>JSON.parse\<close>
  gave with the event appended at the end (\<open>accepted_write_appends\<close>). That array is not
  always the sequence of events in the fetched document. \<^verbatim>\<open>putFileContent\<close> writes the UTF-8
  bytes of the text, \<^verbatim>\<open>btoa(unescape(encodeURIComponent(content)))\<close>, and \<^verbatim>\<open>appendEventToGitea\<close>
  reads a document back with \<^verbatim>\<open>atob\<close> alone. So for a document \<open>xs\<close> that an earlier sync
  wrote, \<^verbatim>\<open>JSON.parse\<close> is handed the UTF-8 bytes as code units, every string of \<open>xs\<close> comes
  back UTF-8 encoded, and the next accepted write holds those re-encoded events followed by
  the new event. An archived note \<^verbatim>\<open>caf\<close> followed by the code unit E9 (e with acute accent)
  is written back as \<^verbatim>\<open>caf\<close> followed by the two code units C3 and A9; the events written
  are the fetched ones only when every code unit of every string is below 128.
\<close>

theorem archive_reencodes_fetched_events:
  assumes "getGiteaConfig env = Some config"
    and "fetch_get net (contents_url config (monthly_path P event)) (token config)
           = GetStatus 200 (Some file)"
    and "file = \<lparr>file_content = base64Content P (json_stringify P (JArr xs)),
                  file_encoding = ''base64'', file_sha = Some s\<rparr>"
    and "s \<noteq> []"
    and "atob P (btoa P (utf8_encode (json_stringify P (JArr xs))))
           = Some (utf8_encode (json_stringify P (JArr xs)))"
    and "json_parse P (utf8_encode (json_stringify P (JArr xs)))
           = Some (map_strings utf8_encode (JArr xs))"
    and "request =
           \<lparr>put_method = ''PUT'', put_url = contents_url config (monthly_path P event),
            put_token = token config,
            put_content = base64Content P (json_stringify P
              (JArr (map (map_strings utf8_encode) xs @ [event_json event]))),
            put_sha = Some s\<rparr>"
    and "fetch_put net request = PutStatus 200"
  shows "written (appendEventToGitea P net event env) = Some request \<and>
         write_accepted net (appendEventToGitea P net event env)"
proof -
  have get: "getFileContent net config (monthly_path P event) = (Inr (Some file), [])"
    using assms(2) by (rule getFileContent_found)
  have "decoded_text P file = Some (utf8_encode (json_stringify P (JArr xs)))"
    unfolding assms(3) using assms(5) by (rule decoded_text_of_written)
  then have "parse_existing P file = Inr (map_strings utf8_encode (JArr xs))"
    using assms(6) by (simp add: parse_existing_def)
  then have ex: "existing_events P (Some file) = Inr (JArr (map (map_strings utf8_encode) xs), Some s)"
    using assms(3) by (simp add: existing_events_def)
  have put: "putFileContent P net config (monthly_path P event)
      (json_stringify P (JArr (map (map_strings utf8_encode) xs @ [event_json event]))) (Some s)
      = (Inr (), request, [])"
    using assms(4) assms(8) unfolding assms(7)
    by (simp add: putFileContent_def response_ok_def)
  have w: "written (appendEventToGitea P net event env) = Some request"
    using assms(1) get ex put by (simp add: appendEventToGitea_def Let_def)
  then show ?thesis
    using assms(8) by (simp add: write_accepted_def response_ok_def)
qed

lemma tap_event_created_at: "created_at (tap_event ip u t) = t"
  by (simp add: tap_event_def new_event_def rt_at_def)

lemma cafe_note:
  "property (event_json cafe_event) ''note'' = Some (JStr (''caf'' @ [CHR 0xE9]))"
  by (simp add: event_json_def cafe_event_def new_event_def cafe_body_def or_null_def)

lemma cafe_note_reencoded:
  "property (map_strings utf8_encode (event_json cafe_event)) ''note''
     = Some (JStr (''caf'' @ [CHR 0xC3, CHR 0xA9]))"
  by (simp add: event_json_def cafe_event_def new_event_def cafe_body_def or_null_def
      utf8_encode_def utf8_unit_def char_of_def bit_iff_odd)

theorem archive_reencodes_fetched_events_witness:
  "written (appendEventToGitea P0 cafe_archive (tap_event ''A'' ''u2'' 1000) env0) =
     Some \<lparr>put_method = ''PUT'',
           put_url = ''https://git.example/api/v1/repos/wintermute/log/contents/events/1970-01.json'',
           put_token = ''secret'',
           put_content = base64Content P0 (json_stringify P0
             (JArr [map_strings utf8_encode (event_json cafe_event),
                    event_json (tap_event ''A'' ''u2'' 1000)])),
           put_sha = Some ''abc123''\<rparr> \<and>
   write_accepted cafe_archive (appendEventToGitea P0 cafe_archive (tap_event ''A'' ''u2'' 1000) env0) \<and>
   file_content cafe_file = base64Content P0 (json_stringify P0 (JArr [event_json cafe_event])) \<and>
   property (event_json cafe_event) ''note'' = Some (JStr (''caf'' @ [CHR 0xE9])) \<and>
   property (map_strings utf8_encode (event_json cafe_event)) ''note''
     = Some (JStr (''caf'' @ [CHR 0xC3, CHR 0xA9]))"
proof -
  let ?e = "tap_event ''A'' ''u2'' 1000"
  let ?config = "\<lparr>url = ''https://git.example'', token = ''secret'',
      owner = ''wintermute'', repo = ''log''\<rparr>"
  have path: "monthly_path P0 ?e = ''events/1970-01.json''"
    by (rule monthly_path_1000) (rule tap_event_created_at)
  have parse: "json_parse P0 (utf8_encode (json_stringify P0 (JArr [event_json cafe_event])))
      = Some (map_strings utf8_encode (JArr [event_json cafe_event]))"
    by (simp add: P0_def demo_parse_def)
  have b64: "atob P0 (btoa P0 (utf8_encode (json_stringify P0 (JArr [event_json cafe_event]))))
      = Some (utf8_encode (json_stringify P0 (JArr [event_json cafe_event])))"
    by (simp add: P0_def)
  have "written (appendEventToGitea P0 cafe_archive ?e env0) =
      Some \<lparr>put_method = ''PUT'', put_url = contents_url ?config (monthly_path P0 ?e),
            put_token = token ?config,
            put_content = base64Content P0 (json_stringify P0
              (JArr (map (map_strings utf8_encode) [event_json cafe_event] @ [event_json ?e]))),
            put_sha = Some ''abc123''\<rparr> \<and>
    write_accepted cafe_archive (appendEventToGitea P0 cafe_archive ?e env0)"
    using env0_config
  proof (rule archive_reencodes_fetched_events)
    show "fetch_get cafe_archive (contents_url ?config (monthly_path P0 ?e)) (token ?config)
        = GetStatus 200 (Some cafe_file)"
      by (simp add: cafe_archive_def)
    show "cafe_file = \<lparr>file_content = base64Content P0 (json_stringify P0 (JArr [event_json cafe_event])),
        file_encoding = ''base64'', file_sha = Some ''abc123''\<rparr>"
      by (rule cafe_file_def)
    show "''abc123'' \<noteq> []" by simp
    show "atob P0 (btoa P0 (utf8_encode (json_stringify P0 (JArr [event_json cafe_event]))))
        = Some (utf8_encode (json_stringify P0 (JArr [event_json cafe_event])))"
      by (rule b64)
    show "json_parse P0 (utf8_encode (json_stringify P0 (JArr [event_json cafe_event])))
        = Some (map_strings utf8_encode (JArr [event_json cafe_event]))"
      by (rule parse)
    show "fetch_put cafe_archive
       \<lparr>put_method = ''PUT'', put_url = contents_url ?config (monthly_path P0 ?e),
            put_token = token ?config,
            put_content = base64Content P0 (json_stringify P0
              (JArr (map (map_strings utf8_encode) [event_json cafe_event] @ [event_json ?e]))),
            put_sha = Some ''abc123''\<rparr> = PutStatus 200"
      by (simp add: cafe_archive_def)
  qed (rule refl)
  then show ?thesis
    by (simp add: path contents_url_def cafe_file_def cafe_note cafe_note_reencoded)
qed

subsection \<open>Requests without an address\<close>

lemma dedupe_window_in_rate_window:
  assumes "(t2 :: int) div IDEMPOTENCY_WINDOW = t1 div IDEMPOTENCY_WINDOW"
  shows "window_start t2 = window_start t1"
proof -
  have "t div 60 = t div 5 div 12" for t :: int
    using zdiv_zmult2_eq [of 12 t 5] by simp
  with assms show ?thesis
    by (simp add: window_start_def RATE_LIMIT_WINDOW_def IDEMPOTENCY_WINDOW_def)
qed

lemma onRequestPost_unknown_header:
  assumes "\<not> present (headers request ''CF-Connecting-IP'')"
    and "\<not> present (headers request ''X-Forwarded-For'')"
  shows "onRequestPost P rt request db =
       onRequestPost P rt (request\<lparr>headers := (headers request)(''CF-Connecting-IP'' \<mapsto> ''unknown'')\<rparr>) db"
proof -
  have ip: "getClientIP request = ''unknown''"
    using assms by (rule getClientIP_unknown)
  let ?r = "request\<lparr>headers := (headers request)(''CF-Connecting-IP'' \<mapsto> ''unknown'')\<rparr>"
  have ip': "getClientIP ?r = ''unknown''"
    by (simp add: getClientIP_def)
  have so: "isSameOrigin P ?r e = isSameOrigin P request e" for e
    by (simp add: isSameOrigin_def)
  have "onRequestPost P rt ?r db = onRequestPost P rt request db"
    by (rule onRequestPost_cong) (simp_all add: so ip ip')
  then show ?thesis by simp
qed

lemma anonymous_post_reaches: "reaches_limiter P0 (anonymous_post agent) 32"
  by (simp add: reaches_limiter_def anonymous_post_def isSameOrigin_def P0_def simple_origin_def
      simple_hostname_def after_scheme_def tap32_amount, simp add: tap32_def)

text \<open>
  Claim C9. When neither \<^verbatim>\<open>CF-Connecting-IP\<close> nor \<^verbatim>\<open>X-Forwarded-For\<close> is present (or both are
  empty), the address is the constant \<open>''unknown''\<close>, so any two such requests, whatever else
  they carry, meet in the same state. Take two of them with the same amount, both past the
  origin and amount checks, handled one after the other with no failing statement, and let
  \<open>n\<close> be the counter of \<open>''unknown''\<close> for the window of the first. One counter per window:
  at the limit the first is answered with 429 and changes nothing; below it the first
  raises that counter to \<open>n + 1\<close>, and a second in the same rate window raises the same
  counter to \<open>n + 2\<close>, or is answered with 429 when \<open>n + 1\<close> is the limit. One key space:
  when the first finds no fresh record under the key of \<open>''unknown''\<close>, its amount and its
  window, it is answered with 201 and records that key, and a second in the same dedupe
  window is then answered with 409 as a duplicate of the first, adds no event, and has
  still been counted.
\<close>

theorem missing_address_is_unknown:
  assumes anon1: "\<not> present (headers request1 ''CF-Connecting-IP'')"
      "\<not> present (headers request1 ''X-Forwarded-For'')"
    and anon2: "\<not> present (headers request2 ''CF-Connecting-IP'')"
      "\<not> present (headers request2 ''X-Forwarded-For'')"
    and reach1: "reaches_limiter P request1 a" and reach2: "reaches_limiter P request2 a"
    and ok: "faults rt1 = {}" "faults rt2 = {}"
    and t1: "date_now rt1 div 1000 = t1" and t2: "date_now rt2 div 1000 = t2"
    and count: "request_count db ''unknown'' (window_start t1) = n" "0 \<le> n"
      "rate_limits db (''unknown'', window_start t1) \<noteq> Some 0"
    and first: "onRequestPost P rt1 request1 db = (out1, db1, spawned1)"
    and second: "onRequestPost P rt2 request2 db1 = (out2, db2, spawned2)"
  shows "getClientIP request1 = ''unknown'' \<and> getClientIP request2 = ''unknown'' \<and>
    (RATE_LIMIT_MAX_REQUESTS \<le> n \<longrightarrow>
       out1 = error_response 429 ''Rate limit exceeded'' \<and> db1 = db) \<and>
    (n < RATE_LIMIT_MAX_REQUESTS \<longrightarrow>
       rate_limits db1 (''unknown'', window_start t1) = Some (n + 1)) \<and>
    (n + 1 < RATE_LIMIT_MAX_REQUESTS \<and> window_start t2 = window_start t1 \<longrightarrow>
       rate_limits db2 (''unknown'', window_start t1) = Some (n + 2)) \<and>
    (n + 1 = RATE_LIMIT_MAX_REQUESTS \<and> window_start t2 = window_start t1 \<longrightarrow>
       out2 = error_response 429 ''Rate limit exceeded'' \<and> db2 = db1) \<and>
    (n < RATE_LIMIT_MAX_REQUESTS \<and> fresh_key db (generateIdempotencyKey P ''unknown'' a t1) t1 \<and>
     uuid rt1 \<notin> event_id ` set (events db) \<longrightarrow>
       out1 = created_response (uuid rt1) a t1 \<and>
       idempotency_keys db1 (generateIdempotencyKey P ''unknown'' a t1) = Some t1 \<and>
       (n + 1 < RATE_LIMIT_MAX_REQUESTS \<and> t2 div IDEMPOTENCY_WINDOW = t1 div IDEMPOTENCY_WINDOW \<longrightarrow>
          out2 = error_response 409 ''Duplicate request'' \<and> events db2 = events db1 \<and>
          idempotency_keys db2 = idempotency_keys db1 \<and>
          rate_limits db2 (''unknown'', window_start t1) = Some (n + 2)))"
proof -
  let ?w = "window_start t1"
  let ?k = "generateIdempotencyKey P ''unknown'' a t1"
  have ip1: "getClientIP request1 = ''unknown''"
    using anon1 by (rule getClientIP_unknown)
  have ip2: "getClientIP request2 = ''unknown''"
    using anon2 by (rule getClientIP_unknown)
  have f1: "faults rt1 \<inter> rate_stmts = {}" "SelectRateLimit \<notin> faults rt1"
    and f2: "faults rt2 \<inter> rate_stmts = {}" "SelectRateLimit \<notin> faults rt2"
      "SelectIdempotencyKey \<notin> faults rt2"
    using ok by simp_all
  have deny1: "out1 = error_response 429 ''Rate limit exceeded'' \<and> db1 = db"
    if "RATE_LIMIT_MAX_REQUESTS \<le> n"
    using onRequestPost_rate_limited [OF reach1 f1(2), of db] that count(1) first
    by (simp add: ip1 t1)
  have allowed1: "allowed db ''unknown'' t1" if "n < RATE_LIMIT_MAX_REQUESTS"
    using that count by (simp add: allowed_def)
  have counter1: "rate_limits db1 = rate_limits (counted db ''unknown'' t1)"
    if "n < RATE_LIMIT_MAX_REQUESTS"
    using onRequestPost_counted [OF reach1 f1(1), of db] allowed1 [OF that] first
    by (simp add: ip1 t1)
  have c1: "rate_limits db1 (''unknown'', ?w) = Some (n + 1)" if "n < RATE_LIMIT_MAX_REQUESTS"
    using counter1 [OF that] count(1) by simp
  have allowed2: "allowed db1 ''unknown'' t2"
    if "n + 1 < RATE_LIMIT_MAX_REQUESTS" "window_start t2 = ?w"
  proof -
    from that(1) have "n < RATE_LIMIT_MAX_REQUESTS" by simp
    from c1 [OF this] that count(2) show ?thesis
      by (simp add: allowed_def request_count_def)
  qed
  have c2: "rate_limits db2 (''unknown'', ?w) = Some (n + 2)"
    if h: "n + 1 < RATE_LIMIT_MAX_REQUESTS" "window_start t2 = ?w"
  proof -
    from h(1) have "n < RATE_LIMIT_MAX_REQUESTS" by simp
    from c1 [OF this] have "request_count db1 ''unknown'' (window_start t2) = n + 1"
      using h(2) by (simp add: request_count_def)
    moreover have "rate_limits db2 = rate_limits (counted db1 ''unknown'' t2)"
      using onRequestPost_counted [OF reach2 f2(1), of db1] allowed2 [OF h] second
      by (simp add: ip2 t2)
    ultimately show ?thesis
      using counted_simps(3) [of db1 "''unknown''" t2] h(2) by simp
  qed
  have deny2: "out2 = error_response 429 ''Rate limit exceeded'' \<and> db2 = db1"
    if h: "n + 1 = RATE_LIMIT_MAX_REQUESTS" "window_start t2 = ?w"
  proof -
    from h(1) have "n < RATE_LIMIT_MAX_REQUESTS" by simp
    from c1 [OF this] have "request_count db1 ''unknown'' (window_start t2) = n + 1"
      using h(2) by (simp add: request_count_def)
    with h(1) have "RATE_LIMIT_MAX_REQUESTS \<le> request_count db1 ''unknown'' (window_start t2)"
      by simp
    with onRequestPost_rate_limited [OF reach2 f2(2), of db1] second show ?thesis
      by (simp add: ip2 t2)
  qed
  have keys: "out1 = created_response (uuid rt1) a t1 \<and>
       idempotency_keys db1 ?k = Some t1 \<and>
       (n + 1 < RATE_LIMIT_MAX_REQUESTS \<and> t2 div IDEMPOTENCY_WINDOW = t1 div IDEMPOTENCY_WINDOW \<longrightarrow>
          out2 = error_response 409 ''Duplicate request'' \<and> events db2 = events db1 \<and>
          idempotency_keys db2 = idempotency_keys db1 \<and>
          rate_limits db2 (''unknown'', ?w) = Some (n + 2))"
    if h: "n < RATE_LIMIT_MAX_REQUESTS" "fresh_key db ?k t1" "uuid rt1 \<notin> event_id ` set (events db)"
  proof -
    from reach1 obtain b1 where b1: "req_body request1 = Some b1"
      by (auto elim!: reaches_limiterD)
    have "onRequestPost P rt1 request1 db =
       (created_response (uuid rt1) a t1,
        (recorded (counted db ''unknown'' t1) ?k t1)
          \<lparr>events := events db @ [new_event rt1 request1 b1 a]\<rparr>,
        Some (new_event rt1 request1 b1 a))"
      using onRequestPost_created [OF reach1 ok(1) _ _ h(3) b1] allowed1 [OF h(1)] h(2)
      by (simp add: ip1 t1)
    with first have o1: "out1 = created_response (uuid rt1) a t1"
      and d1: "db1 = (recorded (counted db ''unknown'' t1) ?k t1)
          \<lparr>events := events db @ [new_event rt1 request1 b1 a]\<rparr>"
      by simp_all
    from d1 have k1: "idempotency_keys db1 ?k = Some t1" by simp
    have dup: "out2 = error_response 409 ''Duplicate request'' \<and> events db2 = events db1 \<and>
          idempotency_keys db2 = idempotency_keys db1 \<and>
          rate_limits db2 (''unknown'', ?w) = Some (n + 2)"
      if g: "n + 1 < RATE_LIMIT_MAX_REQUESTS" "t2 div IDEMPOTENCY_WINDOW = t1 div IDEMPOTENCY_WINDOW"
    proof -
      have w: "window_start t2 = ?w"
        using g(2) by (rule dedupe_window_in_rate_window)
      have key: "generateIdempotencyKey P ''unknown'' a t2 = ?k"
        using g(2) by (rule key_same_window)
      have age: "t2 - t1 < IDEMPOTENCY_WINDOW"
        using g(2) by (rule same_window_age)
      have stale: "\<not> fresh_key db1 (generateIdempotencyKey P ''unknown'' a t2) t2"
        using k1 age by (simp add: key fresh_key_def)
      have "onRequestPost P rt2 request2 db1 =
          (error_response 409 ''Duplicate request'', counted db1 ''unknown'' t2, None)"
        using onRequestPost_duplicate [OF reach2 f2(1) _ f2(3), of db1] allowed2 [OF g(1) w] stale
        by (simp add: ip2 t2)
      with second have "out2 = error_response 409 ''Duplicate request''"
        and "db2 = counted db1 ''unknown'' t2"
        by simp_all
      with c2 [OF g(1) w] show ?thesis by simp
    qed
    from o1 k1 dup show ?thesis by blast
  qed
  from ip1 ip2 deny1 c1 c2 deny2 keys show ?thesis by blast
qed

theorem missing_address_is_unknown_witness:
  "\<not> present (headers (anonymous_post ''curl'') ''CF-Connecting-IP'') \<and>
   \<not> present (headers (anonymous_post ''curl'') ''X-Forwarded-For'') \<and>
   \<not> present (headers (anonymous_post ''Mozilla'') ''CF-Connecting-IP'') \<and>
   \<not> present (headers (anonymous_post ''Mozilla'') ''X-Forwarded-For'') \<and>
   reaches_limiter P0 (anonymous_post ''curl'') 32 \<and>
   reaches_limiter P0 (anonymous_post ''Mozilla'') 32 \<and>
   request_count db0 ''unknown'' (window_start 1000) = 0 \<and>
   fresh_key db0 (generateIdempotencyKey P0 ''unknown'' 32 1000) 1000 \<and>
   (1002 :: int) div IDEMPOTENCY_WINDOW = 1000 div IDEMPOTENCY_WINDOW \<and>
   getClientIP (anonymous_post ''curl'') = ''unknown'' \<and>
   getClientIP (anonymous_post ''Mozilla'') = ''unknown'' \<and>
   fst (serve_all P0 [(rt_at 1000 ''u1'', anonymous_post ''curl''),
                      (rt_at 1002 ''u2'', anonymous_post ''Mozilla'')] db0)
     = [created_response ''u1'' 32 1000, error_response 409 ''Duplicate request''] \<and>
   rate_limits (snd (serve_all P0 [(rt_at 1000 ''u1'', anonymous_post ''curl''),
                      (rt_at 1002 ''u2'', anonymous_post ''Mozilla'')] db0)) (''unknown'', 960)
     = Some 2 \<and>
   idempotency_keys (snd (serve_all P0 [(rt_at 1000 ''u1'', anonymous_post ''curl''),
                      (rt_at 1002 ''u2'', anonymous_post ''Mozilla'')] db0))
       (generateIdempotencyKey P0 ''unknown'' 32 1000) = Some 1000"
proof -
  let ?r1 = "anonymous_post ''curl''" and ?r2 = "anonymous_post ''Mozilla''"
  have a: "\<not> present (headers (anonymous_post agent) ''CF-Connecting-IP'')"
    "\<not> present (headers (anonymous_post agent) ''X-Forwarded-For'')" for agent
    by (simp_all add: anonymous_post_def)
  have c: "request_count db0 ''unknown'' (window_start 1000) = 0" "(0 :: int) \<le> 0"
    "rate_limits db0 (''unknown'', window_start 1000) \<noteq> Some 0"
    by (simp_all add: eval_defs)
  have fr: "fresh_key db0 (generateIdempotencyKey P0 ''unknown'' 32 1000) 1000"
    "''u1'' \<notin> event_id ` set (events db0)"
    by (simp_all add: eval_defs)
  have w: "(1002 :: int) div IDEMPOTENCY_WINDOW = 1000 div IDEMPOTENCY_WINDOW"
    "window_start 1000 = 960" "(0 :: int) < RATE_LIMIT_MAX_REQUESTS"
    "(0 :: int) + 1 < RATE_LIMIT_MAX_REQUESTS"
    by (simp_all add: eval_defs)
  obtain out1 db1 s1 where first:
    "onRequestPost P0 (rt_at 1000 ''u1'') ?r1 db0 = (out1, db1, s1)"
    by (cases "onRequestPost P0 (rt_at 1000 ''u1'') ?r1 db0")
  obtain out2 db2 s2 where second:
    "onRequestPost P0 (rt_at 1002 ''u2'') ?r2 db1 = (out2, db2, s2)"
    by (cases "onRequestPost P0 (rt_at 1002 ''u2'') ?r2 db1")
  note t = missing_address_is_unknown [OF a [of "''curl''"] a [of "''Mozilla''"]
      anonymous_post_reaches anonymous_post_reaches rt_at_simps(3) rt_at_simps(3)
      rt_at_simps(1) rt_at_simps(1) c first second]
  have s: "serve_all P0 [(rt_at 1000 ''u1'', ?r1), (rt_at 1002 ''u2'', ?r2)] db0 = ([out1, out2], db2)"
    using first second by (rule serve_all_two)
  from t fr w have "out1 = created_response ''u1'' 32 1000"
    "out2 = error_response 409 ''Duplicate request''"
    "rate_limits db2 (''unknown'', 960) = Some 2"
    "idempotency_keys db2 (generateIdempotencyKey P0 ''unknown'' 32 1000) = Some 1000"
    by simp_all
  with a c(1) fr(1) w(1) anonymous_post_reaches anonymous_post_ip show ?thesis
    unfolding s by simp
qed

end
